theory Spec2Isabelle
  imports Complex_Main "HOL-Library.AList"
begin

section \<open>SSOQL: values of the host language\<close>

text \<open>
  The engine is TypeScript and the data it queries is an arbitrary tree of JavaScript
  values (\<^verbatim>\<open>Record<string, any>\<close>). A data tree is made of the JSON-shaped values and
  \<^verbatim>\<open>undefined\<close>; a record \<open>VObj\<close> is an ordinary object with the default prototype,
  given as the association list of its own properties in enumeration order.

  Two more kinds of value arise while the engine runs. A property read that finds no
  own property goes up the prototype chain and reaches the built-in objects of the
  host: functions such as \<^verbatim>\<open>Object\<close> or \<^verbatim>\<open>toString\<close>, and the prototype objects
  themselves. \<open>VBuiltin\<close> stands for such an object, named by a text; its kind tells
  what \<^verbatim>\<open>typeof\<close> and \<^verbatim>\<open>Array.isArray\<close> say about it. And an assignment to the property
  \<^verbatim>\<open>__proto__\<close> of a record replaces the record's prototype: \<open>VDerived p kvs\<close> is the
  record with the own properties \<open>kvs\<close> whose prototype is \<open>p\<close>, an object or \<^verbatim>\<open>null\<close>.

  Numbers are IEEE doubles in the source. They are idealised here as the reals extended
  by \<^verbatim>\<open>NaN\<close> and the two infinities: rounding, overflow and the sign of zero are not
  modelled. Object identity is not modelled either, except for the built-in objects.
\<close>

datatype jsnum = NaN | PInf | NInf | Fin real

datatype builtin_kind = BFunction | BObject | BArray

datatype jsvalue =
    VUndefined
  | VNull
  | VBool bool
  | VNum jsnum
  | VStr string
  | VList "jsvalue list"
  | VObj "(string \<times> jsvalue) list"
  | VDerived jsvalue "(string \<times> jsvalue) list"
  | VBuiltin builtin_kind string

text \<open>Every \<^verbatim>\<open>throw new Error(msg)\<close> of the source is \<open>Error msg\<close>; reading a property
  of \<^verbatim>\<open>null\<close> or \<^verbatim>\<open>undefined\<close>, or a refused assignment, is the host's \<open>TypeError\<close>. \<open>OutOfFuel\<close> is not an
  error of the source: it marks the parser model running out of its recursion budget.\<close>

datatype error = Error string | TypeError | OutOfFuel

text \<open>The conversions between numbers and text (\<^verbatim>\<open>String(n)\<close> and \<^verbatim>\<open>Number(s)\<close>) and
  \<^verbatim>\<open>Math.sqrt\<close> belong to the host runtime, and so does everything about its built-in
  objects: \<open>inherited v key\<close> is what \<^verbatim>\<open>v[key]\<close> finds on the built-in part of the
  prototype chain of \<open>v\<close> (\<^verbatim>\<open>undefined\<close> when nothing is found; a getter may throw),
  \<open>refuses_assignment v key\<close> tells whether that part of the chain holds \<open>key\<close> as a
  read-only property or with a setter that throws, and \<open>host_to_string\<close>,
  \<open>host_to_number\<close> and \<open>host_json\<close> are \<^verbatim>\<open>String\<close>, \<^verbatim>\<open>Number\<close> and \<^verbatim>\<open>JSON.stringify\<close> on
  a built-in object or on a record with a replaced prototype. They are parameters of
  the model.\<close>

record runtime =
  num_to_string :: "jsnum \<Rightarrow> string"
  string_to_num :: "string \<Rightarrow> jsnum"
  math_sqrt :: "jsnum \<Rightarrow> jsnum"
  inherited :: "jsvalue \<Rightarrow> string \<Rightarrow> error + jsvalue"
  refuses_assignment :: "jsvalue \<Rightarrow> string \<Rightarrow> bool"
  host_to_string :: "jsvalue \<Rightarrow> string"
  host_to_number :: "jsvalue \<Rightarrow> jsnum"
  host_json :: "jsvalue \<Rightarrow> string option"

subsection \<open>Arithmetic on numbers\<close>

definition isNaN :: "jsnum \<Rightarrow> bool" where
  "isNaN n = (n = NaN)"

fun jneg :: "jsnum \<Rightarrow> jsnum" where
  "jneg NaN = NaN"
| "jneg PInf = NInf"
| "jneg NInf = PInf"
| "jneg (Fin r) = Fin (- r)"

fun jadd :: "jsnum \<Rightarrow> jsnum \<Rightarrow> jsnum" where
  "jadd NaN _ = NaN"
| "jadd _ NaN = NaN"
| "jadd PInf NInf = NaN"
| "jadd NInf PInf = NaN"
| "jadd PInf _ = PInf"
| "jadd _ PInf = PInf"
| "jadd NInf _ = NInf"
| "jadd _ NInf = NInf"
| "jadd (Fin a) (Fin b) = Fin (a + b)"

definition jsub :: "jsnum \<Rightarrow> jsnum \<Rightarrow> jsnum" where
  "jsub a b = jadd a (jneg b)"

text \<open>The sign of an infinite product or quotient; a zero counts as positive.\<close>

definition signed_inf :: "bool \<Rightarrow> jsnum" where
  "signed_inf negative = (if negative then NInf else PInf)"

fun is_negative :: "jsnum \<Rightarrow> bool" where
  "is_negative NInf = True"
| "is_negative (Fin r) = (r < 0)"
| "is_negative _ = False"

fun jmul :: "jsnum \<Rightarrow> jsnum \<Rightarrow> jsnum" where
  "jmul NaN _ = NaN"
| "jmul _ NaN = NaN"
| "jmul (Fin a) (Fin b) = Fin (a * b)"
| "jmul (Fin a) b = (if a = 0 then NaN else signed_inf (is_negative (Fin a) \<noteq> is_negative b))"
| "jmul a (Fin b) = (if b = 0 then NaN else signed_inf (is_negative a \<noteq> is_negative (Fin b)))"
| "jmul a b = signed_inf (is_negative a \<noteq> is_negative b)"

fun jdiv :: "jsnum \<Rightarrow> jsnum \<Rightarrow> jsnum" where
  "jdiv NaN _ = NaN"
| "jdiv _ NaN = NaN"
| "jdiv (Fin a) (Fin b) =
     (if b = 0 then (if a = 0 then NaN else signed_inf (a < 0)) else Fin (a / b))"
| "jdiv (Fin a) _ = Fin 0"
| "jdiv a (Fin b) = signed_inf (is_negative a \<noteq> is_negative (Fin b))"
| "jdiv _ _ = NaN"

text \<open>\<^verbatim>\<open>a < b\<close> on numbers; any comparison with \<^verbatim>\<open>NaN\<close> is false.\<close>

fun jlt :: "jsnum \<Rightarrow> jsnum \<Rightarrow> bool" where
  "jlt NaN _ = False"
| "jlt _ NaN = False"
| "jlt NInf b = (b \<noteq> NInf)"
| "jlt _ NInf = False"
| "jlt PInf _ = False"
| "jlt _ PInf = True"
| "jlt (Fin a) (Fin b) = (a < b)"

definition jle :: "jsnum \<Rightarrow> jsnum \<Rightarrow> bool" where
  "jle a b = (a \<noteq> NaN \<and> b \<noteq> NaN \<and> (a = b \<or> jlt a b))"

text \<open>\<^verbatim>\<open>Math.min(...values)\<close> and \<^verbatim>\<open>Math.max(...values)\<close>.\<close>

definition jmin2 :: "jsnum \<Rightarrow> jsnum \<Rightarrow> jsnum" where
  "jmin2 a b = (if a = NaN \<or> b = NaN then NaN else if jlt b a then b else a)"

definition jmax2 :: "jsnum \<Rightarrow> jsnum \<Rightarrow> jsnum" where
  "jmax2 a b = (if a = NaN \<or> b = NaN then NaN else if jlt a b then b else a)"

definition math_min :: "jsnum list \<Rightarrow> jsnum" where
  "math_min values = foldl jmin2 PInf values"

definition math_max :: "jsnum list \<Rightarrow> jsnum" where
  "math_max values = foldl jmax2 NInf values"

text \<open>\<^verbatim>\<open>values.sort((a, b) => a - b)\<close> on a list without \<^verbatim>\<open>NaN\<close>: ascending order.\<close>

fun sort_insert :: "jsnum \<Rightarrow> jsnum list \<Rightarrow> jsnum list" where
  "sort_insert x [] = [x]"
| "sort_insert x (y # ys) = (if jlt x y then x # y # ys else y # sort_insert x ys)"

definition sort_numbers :: "jsnum list \<Rightarrow> jsnum list" where
  "sort_numbers values = foldl (\<lambda>acc x. sort_insert x acc) [] values"

subsection \<open>Text helpers\<close>

definition digit_char :: "nat \<Rightarrow> char" where
  "digit_char d = char_of (of_char (CHR ''0'') + d :: nat)"

fun show_nat :: "nat \<Rightarrow> string" where
  "show_nat n = (if n < 10 then [digit_char n] else show_nat (n div 10) @ [digit_char (n mod 10)])"

declare show_nat.simps [simp del]

text \<open>The array index a property key denotes, if any: the decimal text of a number
  below \<open>2\<^sup>3\<^sup>2 - 1\<close>, without leading zeros. Such keys come first, in ascending
  order, when the own properties of an object are enumerated.\<close>

definition array_index :: "string \<Rightarrow> nat option" where
  "array_index key =
     (let n = foldl (\<lambda>a c. 10 * a + (of_char c - of_char (CHR ''0''))) 0 key in
      if key \<noteq> []
         \<and> list_all (\<lambda>c. (of_char (CHR ''0'') :: nat) \<le> of_char c
                          \<and> (of_char c :: nat) \<le> of_char (CHR ''9'')) key
         \<and> (length key = 1 \<or> hd key \<noteq> CHR ''0'') \<and> n < 4294967295
      then Some n else None)"

text \<open>\<^verbatim>\<open>parts.join(sep)\<close>.\<close>

fun join :: "string \<Rightarrow> string list \<Rightarrow> string" where
  "join sep [] = []"
| "join sep [x] = x"
| "join sep (x # y # ys) = x @ sep @ join sep (y # ys)"

text \<open>\<^verbatim>\<open>s.split(".")\<close>: always at least one part.\<close>

fun split_dot :: "string \<Rightarrow> string list" where
  "split_dot [] = [[]]"
| "split_dot (c # cs) =
     (if c = CHR ''.'' then [] # split_dot cs
      else (case split_dot cs of [] \<Rightarrow> [[c]] | p # ps \<Rightarrow> (c # p) # ps))"

subsection \<open>Conversions of the host language\<close>

text \<open>\<^verbatim>\<open>String(v)\<close>. An array joins the texts of its elements with commas, \<^verbatim>\<open>null\<close> and
  \<^verbatim>\<open>undefined\<close> elements giving the empty text; every record is \<^verbatim>\<open>[object Object]\<close>
  (a record of the data tree is taken to have no own property \<^verbatim>\<open>toString\<close>, so that the
  conversion exists).\<close>

primrec to_string :: "runtime \<Rightarrow> jsvalue \<Rightarrow> string" where
  "to_string rt VUndefined = ''undefined''"
| "to_string rt VNull = ''null''"
| "to_string rt (VBool b) = (if b then ''true'' else ''false'')"
| "to_string rt (VNum n) = num_to_string rt n"
| "to_string rt (VStr s) = s"
| "to_string rt (VList xs) =
     join '',''
       (map2 (\<lambda>x s. if x = VNull \<or> x = VUndefined then [] else s) xs (map (to_string rt) xs))"
| "to_string rt (VObj kvs) = ''[object Object]''"
| "to_string rt (VDerived p kvs) = host_to_string rt (VDerived p kvs)"
| "to_string rt (VBuiltin k n) = host_to_string rt (VBuiltin k n)"

text \<open>\<^verbatim>\<open>Number(v)\<close>.\<close>

definition to_number :: "runtime \<Rightarrow> jsvalue \<Rightarrow> jsnum" where
  "to_number rt v =
     (case v of
        VUndefined \<Rightarrow> NaN
      | VNull \<Rightarrow> Fin 0
      | VBool b \<Rightarrow> Fin (if b then 1 else 0)
      | VNum n \<Rightarrow> n
      | VStr s \<Rightarrow> string_to_num rt s
      | VList xs \<Rightarrow> string_to_num rt (to_string rt (VList xs))
      | VObj kvs \<Rightarrow> NaN
      | VDerived p kvs \<Rightarrow> host_to_number rt v
      | VBuiltin k n \<Rightarrow> host_to_number rt v)"

text \<open>\<^verbatim>\<open>!v\<close> is true exactly for the falsy values.\<close>

definition falsy :: "jsvalue \<Rightarrow> bool" where
  "falsy v =
     (v = VUndefined \<or> v = VNull \<or> v = VBool False \<or> v = VNum (Fin 0) \<or> v = VNum NaN
      \<or> v = VStr [])"

text \<open>\<^verbatim>\<open>typeof v !== "object" || v === null\<close>: the scalars, \<^verbatim>\<open>undefined\<close> and the
  functions.\<close>

fun is_primitive :: "jsvalue \<Rightarrow> bool" where
  "is_primitive (VList xs) = False"
| "is_primitive (VObj kvs) = False"
| "is_primitive (VDerived p kvs) = False"
| "is_primitive (VBuiltin k n) = (k = BFunction)"
| "is_primitive _ = True"

text \<open>The values that are objects of the host language, functions included.\<close>

fun is_object :: "jsvalue \<Rightarrow> bool" where
  "is_object (VList xs) = True"
| "is_object (VObj kvs) = True"
| "is_object (VDerived p kvs) = True"
| "is_object (VBuiltin k n) = True"
| "is_object _ = False"

text \<open>Whether two values that are objects are the same object: known for the built-in
  objects only; two arrays or records are taken to be different objects.\<close>

definition same_object :: "jsvalue \<Rightarrow> jsvalue \<Rightarrow> bool" where
  "same_object a b = (case a of VBuiltin k n \<Rightarrow> a = b | _ \<Rightarrow> False)"

subsection \<open>Properties and prototypes\<close>

text \<open>The own properties of a value: those of a record, the indices and \<^verbatim>\<open>length\<close> of
  an array or a string.\<close>

definition element_at :: "'a list \<Rightarrow> string \<Rightarrow> 'a option" where
  "element_at xs key =
     (case find (\<lambda>i. show_nat i = key) [0..<length xs] of
        Some i \<Rightarrow> Some (xs ! i)
      | None \<Rightarrow> None)"

fun own_property :: "jsvalue \<Rightarrow> string \<Rightarrow> jsvalue option" where
  "own_property (VStr s) key =
     (if key = ''length'' then Some (VNum (Fin (real (length s))))
      else map_option (\<lambda>c. VStr [c]) (element_at s key))"
| "own_property (VList xs) key =
     (if key = ''length'' then Some (VNum (Fin (real (length xs)))) else element_at xs key)"
| "own_property (VObj kvs) key = map_of kvs key"
| "own_property (VDerived p kvs) key = map_of kvs key"
| "own_property v key = None"

text \<open>The prototype of a value that is not a built-in object: the one it was given, or
  the default prototype of its kind.\<close>

fun prototype_of :: "jsvalue \<Rightarrow> jsvalue" where
  "prototype_of (VDerived p kvs) = p"
| "prototype_of (VList xs) = VBuiltin BArray ''Array.prototype''"
| "prototype_of (VStr s) = VBuiltin BObject ''String.prototype''"
| "prototype_of (VNum n) = VBuiltin BObject ''Number.prototype''"
| "prototype_of (VBool b) = VBuiltin BObject ''Boolean.prototype''"
| "prototype_of v = VBuiltin BObject ''Object.prototype''"

text \<open>The property \<open>key\<close> as seen from \<open>holder\<close>, an object on the prototype chain of
  \<open>receiver\<close>: an own property of the holder, or else what the rest of the chain gives.
  A chain that ends in \<^verbatim>\<open>null\<close> gives \<^verbatim>\<open>undefined\<close>. The built-in part of a chain is the
  host's, with one exception that the engine's own objects make visible: the property
  \<^verbatim>\<open>__proto__\<close> found there is a getter that returns the prototype of the receiver.\<close>

fun lookup :: "runtime \<Rightarrow> jsvalue \<Rightarrow> jsvalue \<Rightarrow> string \<Rightarrow> error + jsvalue" where
  "lookup rt receiver (VDerived p kvs) key =
     (case map_of kvs key of
        Some x \<Rightarrow> Inr x
      | None \<Rightarrow> (if p = VNull then Inr VUndefined else lookup rt receiver p key))"
| "lookup rt receiver (VBuiltin k n) key =
     (if key = ''__proto__'' \<and> receiver \<noteq> VBuiltin k n then Inr (prototype_of receiver)
      else inherited rt (VBuiltin k n) key)"
| "lookup rt receiver VUndefined key = Inl TypeError"
| "lookup rt receiver VNull key = Inl TypeError"
| "lookup rt receiver holder key =
     (case own_property holder key of
        Some x \<Rightarrow> Inr x
      | None \<Rightarrow> (if key = ''__proto__'' then Inr (prototype_of receiver)
                 else inherited rt holder key))"

text \<open>\<^verbatim>\<open>v[key]\<close>; it throws on \<^verbatim>\<open>null\<close> and \<^verbatim>\<open>undefined\<close>.\<close>

definition property_of :: "runtime \<Rightarrow> jsvalue \<Rightarrow> string \<Rightarrow> error + jsvalue" where
  "property_of rt v key = lookup rt v v key"

text \<open>\<^verbatim>\<open>Object.keys(v)\<close>: the own enumerable properties. The properties of the built-in
  objects are not enumerable, nor is \<^verbatim>\<open>length\<close>.\<close>

fun object_keys :: "jsvalue \<Rightarrow> string list" where
  "object_keys (VObj kvs) = map fst kvs"
| "object_keys (VDerived p kvs) = map fst kvs"
| "object_keys (VList xs) = map show_nat [0..<length xs]"
| "object_keys (VStr s) = map show_nat [0..<length s]"
| "object_keys _ = []"

text \<open>The keys a \<^verbatim>\<open>for (const key in v)\<close> loop visits: the own enumerable ones, then
  those of the prototype chain that no own property hides.\<close>

fun for_in_keys :: "jsvalue \<Rightarrow> string list" where
  "for_in_keys (VDerived p kvs) =
     map fst kvs @ filter (\<lambda>key. key \<notin> set (map fst kvs)) (for_in_keys p)"
| "for_in_keys v = object_keys v"

text \<open>The own properties of a record after \<^verbatim>\<open>record[key] = v\<close> has defined or updated
  one of them: an existing property keeps its place, a new array index goes among
  the indices, any other new key goes last.\<close>

fun insert_index :: "nat \<Rightarrow> string \<Rightarrow> jsvalue \<Rightarrow> (string \<times> jsvalue) list \<Rightarrow> (string \<times> jsvalue) list"
where
  "insert_index i key v [] = [(key, v)]"
| "insert_index i key v ((k, w) # rest) =
     (case array_index k of
        Some j \<Rightarrow> (if j < i then (k, w) # insert_index i key v rest
                   else (key, v) # (k, w) # rest)
      | None \<Rightarrow> (key, v) # (k, w) # rest)"

definition set_own :: "string \<Rightarrow> jsvalue \<Rightarrow> (string \<times> jsvalue) list \<Rightarrow> (string \<times> jsvalue) list" where
  "set_own key v kvs =
     (case array_index key of
        Some i \<Rightarrow> (if map_of kvs key = None then insert_index i key v kvs
                   else AList.update key v kvs)
      | None \<Rightarrow> AList.update key v kvs)"

fun own_entries :: "jsvalue \<Rightarrow> (string \<times> jsvalue) list" where
  "own_entries (VObj kvs) = kvs"
| "own_entries (VDerived p kvs) = kvs"
| "own_entries v = []"

text \<open>Whether an assignment to \<^verbatim>\<open>__proto__\<close> on an object reaches the setter of
  \<^verbatim>\<open>Object.prototype\<close>: no own property of that name on the object or on a record of
  its chain, and a chain that does not end in \<^verbatim>\<open>null\<close> before.\<close>

fun proto_setter_reached :: "jsvalue \<Rightarrow> bool" where
  "proto_setter_reached (VDerived p kvs) =
     (map_of kvs ''__proto__'' = None \<and> p \<noteq> VNull \<and> proto_setter_reached p)"
| "proto_setter_reached (VObj kvs) = (map_of kvs ''__proto__'' = None)"
| "proto_setter_reached v = True"

definition with_prototype :: "jsvalue \<Rightarrow> (string \<times> jsvalue) list \<Rightarrow> jsvalue" where
  "with_prototype p kvs =
     (if p = VBuiltin BObject ''Object.prototype'' then VObj kvs else VDerived p kvs)"

text \<open>Whether the prototype chain refuses an assignment to \<open>key\<close>: no object of the
  chain up to its built-in part has \<open>key\<close> as an own property, and the built-in part
  refuses. The own properties of arrays and records are writable.\<close>

fun chain_refuses :: "runtime \<Rightarrow> jsvalue \<Rightarrow> string \<Rightarrow> bool" where
  "chain_refuses rt (VDerived p kvs) key =
     (map_of kvs key = None \<and> p \<noteq> VNull \<and> chain_refuses rt p key)"
| "chain_refuses rt (VObj kvs) key =
     (map_of kvs key = None \<and> refuses_assignment rt (VObj kvs) key)"
| "chain_refuses rt (VList xs) key =
     (own_property (VList xs) key = None \<and> refuses_assignment rt (VList xs) key)"
| "chain_refuses rt (VBuiltin k n) key = refuses_assignment rt (VBuiltin k n) key"
| "chain_refuses rt v key = False"

text \<open>\<^verbatim>\<open>record[key] = v\<close> on a record the engine is building, in strict mode. The setter
  of \<^verbatim>\<open>__proto__\<close> replaces the prototype when \<open>v\<close> is an object or \<^verbatim>\<open>null\<close> and does
  nothing otherwise. Any other assignment defines or updates an own property, unless
  the prototype chain refuses it, which throws.\<close>

definition obj_set :: "runtime \<Rightarrow> jsvalue \<Rightarrow> string \<Rightarrow> jsvalue \<Rightarrow> error + jsvalue" where
  "obj_set rt target key v =
     (if key = ''__proto__'' \<and> proto_setter_reached target then
        Inr (if is_object v \<or> v = VNull then with_prototype v (own_entries target)
             else target)
      else if chain_refuses rt target key then Inl TypeError
      else
        (case target of
           VObj kvs \<Rightarrow> Inr (VObj (set_own key v kvs))
         | VDerived p kvs \<Rightarrow> Inr (VDerived p (set_own key v kvs))
         | _ \<Rightarrow> Inr target))"

text \<open>\<^verbatim>\<open>JSON.stringify(v)\<close>; \<open>None\<close> is the result \<^verbatim>\<open>undefined\<close>, which is what a
  function gives. Only own properties are written; no value has a \<^verbatim>\<open>toJSON\<close> method.\<close>

definition hex_digit :: "nat \<Rightarrow> char" where
  "hex_digit d =
     (if d < 10 then digit_char d else char_of (of_char (CHR ''a'') + (d - 10) :: nat))"

definition json_escape :: "char \<Rightarrow> string" where
  "json_escape c =
     (if c = CHR 0x22 then [CHR 0x5C, CHR 0x22]
      else if c = CHR 0x5C then [CHR 0x5C, CHR 0x5C]
      else if c = CHR 0x08 then [CHR 0x5C, CHR ''b'']
      else if c = CHR 0x09 then [CHR 0x5C, CHR ''t'']
      else if c = CHR 0x0A then [CHR 0x5C, CHR ''n'']
      else if c = CHR 0x0C then [CHR 0x5C, CHR ''f'']
      else if c = CHR 0x0D then [CHR 0x5C, CHR ''r'']
      else if (of_char c :: nat) < 32
        then [CHR 0x5C, CHR ''u'', CHR ''0'', CHR ''0'',
              hex_digit ((of_char c :: nat) div 16), hex_digit ((of_char c :: nat) mod 16)]
      else [c])"

definition json_quote :: "string \<Rightarrow> string" where
  "json_quote s = [CHR 0x22] @ concat (map json_escape s) @ [CHR 0x22]"

definition json_member :: "string \<times> string option \<Rightarrow> string list" where
  "json_member kv =
     (case snd kv of None \<Rightarrow> [] | Some s \<Rightarrow> [json_quote (fst kv) @ '':'' @ s])"

primrec json_stringify :: "runtime \<Rightarrow> jsvalue \<Rightarrow> string option" where
  "json_stringify rt VUndefined = None"
| "json_stringify rt VNull = Some ''null''"
| "json_stringify rt (VBool b) = Some (if b then ''true'' else ''false'')"
| "json_stringify rt (VNum n) =
     Some (case n of Fin r \<Rightarrow> num_to_string rt n | _ \<Rightarrow> ''null'')"
| "json_stringify rt (VStr s) = Some (json_quote s)"
| "json_stringify rt (VList xs) =
     Some (''['' @ join '',''
        (map (\<lambda>j. case j of None \<Rightarrow> ''null'' | Some s \<Rightarrow> s) (map (json_stringify rt) xs))
        @ '']'')"
| "json_stringify rt (VObj kvs) =
     Some (''{'' @ join '',''
        (concat (map json_member (map (map_prod id (json_stringify rt)) kvs))) @ ''}'')"
| "json_stringify rt (VDerived p kvs) =
     Some (''{'' @ join '',''
        (concat (map json_member (map (map_prod id (json_stringify rt)) kvs))) @ ''}'')"
| "json_stringify rt (VBuiltin k n) =
     (if k = BFunction then None else host_json rt (VBuiltin k n))"

text \<open>The value \<^verbatim>\<open>JSON.stringify\<close> hands back to the caller.\<close>

definition json_value :: "runtime \<Rightarrow> jsvalue \<Rightarrow> jsvalue" where
  "json_value rt v = (case json_stringify rt v of None \<Rightarrow> VUndefined | Some s \<Rightarrow> VStr s)"

section \<open>The abstract syntax tree (types.ts)\<close>

datatype operator_type =
    O_EQUALS | O_NOT_EQUALS | O_GREATER_THAN | O_LESS_THAN
  | O_GREATER_THAN_EQUALS | O_LESS_THAN_EQUALS | O_CONTAINS | O_NOT_CONTAINS
  | O_AND | O_OR | O_NOT

text \<open>The text of an \<^verbatim>\<open>OperatorType\<close> member, as it appears in error messages.\<close>

fun operator_text :: "operator_type \<Rightarrow> string" where
  "operator_text O_EQUALS = ''=''"
| "operator_text O_NOT_EQUALS = ''!=''"
| "operator_text O_GREATER_THAN = ''>''"
| "operator_text O_LESS_THAN = ''<''"
| "operator_text O_GREATER_THAN_EQUALS = ''>=''"
| "operator_text O_LESS_THAN_EQUALS = ''<=''"
| "operator_text O_CONTAINS = ''CONTAINS''"
| "operator_text O_NOT_CONTAINS = ''NOT_CONTAINS''"
| "operator_text O_AND = ''&''"
| "operator_text O_OR = ''|''"
| "operator_text O_NOT = ''!''"

datatype condition =
    BinaryCondition operator_type condition condition
  | UnaryCondition operator_type condition
  | ComparisonCondition string operator_type jsvalue

datatype field_spec = Star | Fields "string list"

text \<open>A \<^verbatim>\<open>SelectOperationNode\<close>: \<^verbatim>\<open>fields\<close>, the optional \<^verbatim>\<open>conditions\<close> and the
  optional \<^verbatim>\<open>each\<close> flag.\<close>

datatype select_operation =
  SelectOperation (sel_fields: field_spec) (sel_conditions: "condition option")
    (sel_each: "bool option")

datatype operation =
    Select select_operation
  | CountOperation select_operation
  | SumOperation
  | DivideOperation string string
  | MultiplyOperation string string
  | SubtractOperation string string
  | AverageOperation
  | MedianOperation
  | MinOperation
  | MaxOperation
  | PercentOfOperation select_operation select_operation
  | MostFrequentOperation
  | LeastFrequentOperation
  | UniqueOperation
  | StandardDeviationOperation
  | VarianceOperation
  | RangeOperation
  | VariableAssignment string operation

text \<open>A \<^verbatim>\<open>UsePathNode\<close>; its \<^verbatim>\<open>fields\<close> member is \<open>use_fields\<close> here.\<close>

record use_path =
  path :: string
  use_fields :: "string list option"

record query_block =
  name :: string
  operations :: "operation list"

record program =
  usePaths :: "use_path list"
  queryBlocks :: "query_block list"

section \<open>The executor (executor.ts)\<close>

text \<open>A \<^verbatim>\<open>Map<string, any>\<close> of variables: \<^verbatim>\<open>set\<close> is \<open>AList.update\<close>, \<^verbatim>\<open>has\<close> and
  \<^verbatim>\<open>get\<close> are \<open>map_of\<close>.\<close>

type_synonym varmap = "(string \<times> jsvalue) list"

record execution_context =
  data :: jsvalue
  variables :: varmap
  currentContext :: "jsvalue list"

subsection \<open>Exceptions as values\<close>

definition andThen :: "error + 'a \<Rightarrow> ('a \<Rightarrow> error + 'b) \<Rightarrow> error + 'b" where
  "andThen m f = (case m of Inl e \<Rightarrow> Inl e | Inr x \<Rightarrow> f x)"

text \<open>\<^verbatim>\<open>xs.map(f)\<close>, \<^verbatim>\<open>xs.filter(p)\<close> and \<^verbatim>\<open>xs.reduce(f, init)\<close> with a callback that
  may throw: the first exception ends the traversal.\<close>

fun map_result :: "('a \<Rightarrow> error + 'b) \<Rightarrow> 'a list \<Rightarrow> error + 'b list" where
  "map_result f [] = Inr []"
| "map_result f (x # xs) =
     andThen (f x) (\<lambda>y. andThen (map_result f xs) (\<lambda>ys. Inr (y # ys)))"

fun filter_result :: "('a \<Rightarrow> error + bool) \<Rightarrow> 'a list \<Rightarrow> error + 'a list" where
  "filter_result p [] = Inr []"
| "filter_result p (x # xs) =
     andThen (p x) (\<lambda>keep. andThen (filter_result p xs)
       (\<lambda>ys. Inr (if keep then x # ys else ys)))"

fun reduce_result :: "('b \<Rightarrow> 'a \<Rightarrow> error + 'b) \<Rightarrow> 'b \<Rightarrow> 'a list \<Rightarrow> error + 'b" where
  "reduce_result f acc [] = Inr acc"
| "reduce_result f acc (x # xs) = andThen (f acc x) (\<lambda>acc'. reduce_result f acc' xs)"

subsection \<open>Variables and conditions\<close>

definition getVariableValue :: "string \<Rightarrow> execution_context \<Rightarrow> error + jsvalue" where
  "getVariableValue variableName context =
     (case map_of (variables context) variableName of
        None \<Rightarrow> Inl (Error (''Variable '' @ variableName @ '' not found''))
      | Some v \<Rightarrow> Inr v)"

text \<open>\<^verbatim>\<open>a == b\<close>. Two objects are equal only when they are the same object. An object
  compared with a scalar is converted first, and the conversion is taken to be its
  text.\<close>

definition to_primitive :: "runtime \<Rightarrow> jsvalue \<Rightarrow> jsvalue" where
  "to_primitive rt v = (if is_object v then VStr (to_string rt v) else v)"

definition is_nullish :: "jsvalue \<Rightarrow> bool" where
  "is_nullish v = (v = VNull \<or> v = VUndefined)"

fun is_text :: "jsvalue \<Rightarrow> bool" where
  "is_text (VStr s) = True"
| "is_text _ = False"

definition loose_eq :: "runtime \<Rightarrow> jsvalue \<Rightarrow> jsvalue \<Rightarrow> bool" where
  "loose_eq rt a b =
     (if is_object a \<and> is_object b then same_object a b
      else if is_nullish a \<or> is_nullish b then is_nullish a \<and> is_nullish b
      else (let pa = to_primitive rt a; pb = to_primitive rt b in
        if is_text pa \<and> is_text pb then pa = pb
        else to_number rt pa \<noteq> NaN \<and> to_number rt pa = to_number rt pb))"

text \<open>\<^verbatim>\<open>a < b\<close> on arbitrary values: two texts compare by code units, anything else as
  numbers; \<open>None\<close> is the undefined outcome of a comparison with \<^verbatim>\<open>NaN\<close>.\<close>

fun text_less :: "string \<Rightarrow> string \<Rightarrow> bool" where
  "text_less [] [] = False"
| "text_less [] (d # ds) = True"
| "text_less (c # cs) [] = False"
| "text_less (c # cs) (d # ds) =
     (if c = d then text_less cs ds else (of_char c :: nat) < of_char d)"

definition js_less :: "runtime \<Rightarrow> jsvalue \<Rightarrow> jsvalue \<Rightarrow> bool option" where
  "js_less rt a b =
     (let pa = to_primitive rt a; pb = to_primitive rt b in
      case (pa, pb) of
        (VStr x, VStr y) \<Rightarrow> Some (text_less x y)
      | _ \<Rightarrow> (if to_number rt pa = NaN \<or> to_number rt pb = NaN then None
               else Some (jlt (to_number rt pa) (to_number rt pb))))"

definition js_gt :: "runtime \<Rightarrow> jsvalue \<Rightarrow> jsvalue \<Rightarrow> bool" where
  "js_gt rt a b = (js_less rt b a = Some True)"

definition js_lt :: "runtime \<Rightarrow> jsvalue \<Rightarrow> jsvalue \<Rightarrow> bool" where
  "js_lt rt a b = (js_less rt a b = Some True)"

definition js_ge :: "runtime \<Rightarrow> jsvalue \<Rightarrow> jsvalue \<Rightarrow> bool" where
  "js_ge rt a b = (js_less rt a b = Some False)"

definition js_le :: "runtime \<Rightarrow> jsvalue \<Rightarrow> jsvalue \<Rightarrow> bool" where
  "js_le rt a b = (js_less rt b a = Some False)"

definition array_some_text :: "runtime \<Rightarrow> jsvalue \<Rightarrow> jsvalue \<Rightarrow> bool" where
  "array_some_text rt actualValue compareValue =
     (case actualValue of
        VList vals \<Rightarrow> list_ex (\<lambda>val. to_string rt val = to_string rt compareValue) vals
      | _ \<Rightarrow> False)"

fun is_array :: "jsvalue \<Rightarrow> bool" where
  "is_array (VList xs) = True"
| "is_array (VBuiltin k n) = (k = BArray)"
| "is_array _ = False"

definition starts_with_dollar :: "jsvalue \<Rightarrow> bool" where
  "starts_with_dollar v = (case v of VStr (c # cs) \<Rightarrow> c = CHR ''$'' | _ \<Rightarrow> False)"

definition evaluateComparison ::
  "runtime \<Rightarrow> string \<Rightarrow> operator_type \<Rightarrow> jsvalue \<Rightarrow> jsvalue \<Rightarrow> execution_context \<Rightarrow> error + bool"
where
  "evaluateComparison rt field operator val item context =
     andThen (property_of rt item field) (\<lambda>actualValue.
     andThen (if starts_with_dollar val then getVariableValue (to_string rt val) context
              else Inr val) (\<lambda>compareValue.
       case operator of
         O_EQUALS \<Rightarrow> Inr (loose_eq rt actualValue compareValue)
       | O_NOT_EQUALS \<Rightarrow> Inr (\<not> loose_eq rt actualValue compareValue)
       | O_GREATER_THAN \<Rightarrow> Inr (compareValue \<noteq> VNull \<and> js_gt rt actualValue compareValue)
       | O_LESS_THAN \<Rightarrow> Inr (compareValue \<noteq> VNull \<and> js_lt rt actualValue compareValue)
       | O_GREATER_THAN_EQUALS \<Rightarrow>
           Inr (compareValue \<noteq> VNull \<and> js_ge rt actualValue compareValue)
       | O_LESS_THAN_EQUALS \<Rightarrow>
           Inr (compareValue \<noteq> VNull \<and> js_le rt actualValue compareValue)
       | O_CONTAINS \<Rightarrow>
           Inr (is_array actualValue \<and> array_some_text rt actualValue compareValue)
       | O_NOT_CONTAINS \<Rightarrow>
           Inr (\<not> is_array actualValue \<or> \<not> array_some_text rt actualValue compareValue)
       | _ \<Rightarrow> Inl (Error (''Unknown comparison operator: '' @ operator_text operator))))"

fun evaluateCondition :: "runtime \<Rightarrow> condition \<Rightarrow> jsvalue \<Rightarrow> execution_context \<Rightarrow> error + bool" where
  "evaluateCondition rt (BinaryCondition operator left right) item context =
     (if operator = O_AND then
        andThen (evaluateCondition rt left item context) (\<lambda>l.
          if l then evaluateCondition rt right item context else Inr False)
      else if operator = O_OR then
        andThen (evaluateCondition rt left item context) (\<lambda>l.
          if l then Inr True else evaluateCondition rt right item context)
      else Inl (Error (''Unknown binary operator: '' @ operator_text operator)))"
| "evaluateCondition rt (UnaryCondition operator cond) item context =
     (if operator = O_NOT then
        andThen (evaluateCondition rt cond item context) (\<lambda>c. Inr (\<not> c))
      else Inl (Error (''Unknown unary operator: '' @ operator_text operator)))"
| "evaluateCondition rt (ComparisonCondition field operator val) item context =
     evaluateComparison rt field operator val item context"

subsection \<open>SELECT and COUNT\<close>

text \<open>The projection of one item to a single field: a primitive is kept, an array or a
  record becomes its JSON text, anything else its \<^verbatim>\<open>String\<close>.\<close>

definition primitive_or_text :: "runtime \<Rightarrow> jsvalue \<Rightarrow> jsvalue" where
  "primitive_or_text rt v =
     (case v of
        VNull \<Rightarrow> v | VStr s \<Rightarrow> v | VNum n \<Rightarrow> v | VBool b \<Rightarrow> v
      | VList xs \<Rightarrow> json_value rt v
      | VObj kvs \<Rightarrow> json_value rt v
      | VDerived p kvs \<Rightarrow> json_value rt v
      | VBuiltin k n \<Rightarrow> (if k = BFunction then VStr (to_string rt v) else json_value rt v)
      | VUndefined \<Rightarrow> VStr (to_string rt v))"

definition select_single :: "runtime \<Rightarrow> string \<Rightarrow> jsvalue \<Rightarrow> error + jsvalue" where
  "select_single rt field item =
     andThen (property_of rt item field) (\<lambda>v. Inr (primitive_or_text rt v))"

definition select_projection :: "runtime \<Rightarrow> string list \<Rightarrow> jsvalue \<Rightarrow> error + jsvalue" where
  "select_projection rt fs item =
     andThen
       (reduce_result
          (\<lambda>projection field. andThen (property_of rt item field)
             (\<lambda>v. obj_set rt projection field (primitive_or_text rt v)))
          (VObj []) fs)
       (\<lambda>projection. Inr (json_value rt projection))"

text \<open>\<^verbatim>\<open>executeSelect\<close>. The source starts from \<^verbatim>\<open>let result = []\<close>, clears the working
  set, and then filters and projects \<^verbatim>\<open>result\<close>; nothing is read from the data or from
  the previous working set. The function returns the selection and leaves it in the
  context it was given.\<close>

definition executeSelect ::
  "runtime \<Rightarrow> select_operation \<Rightarrow> execution_context \<Rightarrow> error + (jsvalue list \<times> execution_context)"
where
  "executeSelect rt operation context =
     (let result0 = [];
          context1 = context\<lparr>currentContext := []\<rparr>
      in andThen
           (case sel_conditions operation of
              Some conds \<Rightarrow> filter_result (\<lambda>item. evaluateCondition rt conds item context1) result0
            | None \<Rightarrow> Inr result0)
           (\<lambda>result1.
         andThen
           (case sel_fields operation of
              Fields fs \<Rightarrow>
                (if length fs = 1 then map_result (select_single rt (fs ! 0)) result1
                 else map_result (select_projection rt fs) result1)
            | Star \<Rightarrow> map_result (\<lambda>item. Inr (json_value rt item)) result1)
           (\<lambda>result2. Inr (result2, context1\<lparr>currentContext := result2\<rparr>))))"

text \<open>\<^verbatim>\<open>executeCount\<close>: the inner SELECT runs on a fresh context object holding a copy of
  the working set; the caller's context gets the saved copy back.\<close>

definition executeCount ::
  "runtime \<Rightarrow> select_operation \<Rightarrow> execution_context \<Rightarrow> error + (jsnum \<times> execution_context)"
where
  "executeCount rt selectOperation context =
     (let originalContext = currentContext context in
      andThen (executeSelect rt selectOperation (context\<lparr>currentContext := originalContext\<rparr>))
        (\<lambda>(selectResult, inner).
           Inr (Fin (real (length selectResult)), context\<lparr>currentContext := originalContext\<rparr>)))"

subsection \<open>Numeric aggregates\<close>

definition nan_to_zero :: "jsnum \<Rightarrow> jsnum" where
  "nan_to_zero n = (if isNaN n then Fin 0 else n)"

definition executeSum :: "runtime \<Rightarrow> execution_context \<Rightarrow> error + jsnum" where
  "executeSum rt context =
     (let cc = currentContext context in
      if length cc = 0 then Inr (Fin 0)
      else if is_primitive (cc ! 0) then
        Inr (foldl (\<lambda>sum v. jadd sum (nan_to_zero (to_number rt v))) (Fin 0) cc)
      else
        (let keys = object_keys (cc ! 0) in
         if length keys = 1 then
           reduce_result
             (\<lambda>sum item. andThen (property_of rt item (keys ! 0))
                (\<lambda>v. Inr (jadd sum (nan_to_zero (to_number rt v)))))
             (Fin 0) cc
         else Inl (Error ''Cannot sum objects with multiple properties'')))"

text \<open>The block \<^verbatim>\<open>// Extract numeric values\<close> that MEDIAN, MIN, MAX and VARIANCE each
  repeat, with the message of the operation's own error: the elements are converted
  with \<^verbatim>\<open>Number\<close> and the \<^verbatim>\<open>NaN\<close> results are filtered out.\<close>

definition numeric_values :: "runtime \<Rightarrow> string \<Rightarrow> jsvalue list \<Rightarrow> error + jsnum list" where
  "numeric_values rt msg cc =
     (if is_primitive (cc ! 0) then
        Inr (filter (\<lambda>n. \<not> isNaN n) (map (to_number rt) cc))
      else
        (let keys = object_keys (cc ! 0) in
         if length keys = 1 then
           andThen (map_result (\<lambda>item. property_of rt item (keys ! 0)) cc)
             (\<lambda>vs. Inr (filter (\<lambda>n. \<not> isNaN n) (map (to_number rt) vs)))
         else Inl (Error msg)))"

definition executeAverage :: "runtime \<Rightarrow> execution_context \<Rightarrow> error + jsnum" where
  "executeAverage rt context =
     (let cc = currentContext context in
      if length cc = 0 then Inr (Fin 0)
      else andThen (executeSum rt context) (\<lambda>sum. Inr (jdiv sum (Fin (real (length cc))))))"

definition executeMedian :: "runtime \<Rightarrow> execution_context \<Rightarrow> error + jsnum" where
  "executeMedian rt context =
     (let cc = currentContext context in
      if length cc = 0 then Inr (Fin 0)
      else andThen
        (numeric_values rt ''Cannot calculate median of objects with multiple properties'' cc)
        (\<lambda>vs.
           if length vs = 0 then Inr (Fin 0)
           else (let ordered = sort_numbers vs; mid = length ordered div 2 in
             if length ordered mod 2 = 0
             then Inr (jdiv (jadd (ordered ! (mid - 1)) (ordered ! mid)) (Fin 2))
             else Inr (ordered ! mid))))"

definition executeMin :: "runtime \<Rightarrow> execution_context \<Rightarrow> error + jsnum" where
  "executeMin rt context =
     (let cc = currentContext context in
      if length cc = 0 then Inr (Fin 0)
      else andThen
        (numeric_values rt ''Cannot find minimum of objects with multiple properties'' cc)
        (\<lambda>vs. if length vs = 0 then Inr (Fin 0) else Inr (math_min vs)))"

definition executeMax :: "runtime \<Rightarrow> execution_context \<Rightarrow> error + jsnum" where
  "executeMax rt context =
     (let cc = currentContext context in
      if length cc = 0 then Inr (Fin 0)
      else andThen
        (numeric_values rt ''Cannot find maximum of objects with multiple properties'' cc)
        (\<lambda>vs. if length vs = 0 then Inr (Fin 0) else Inr (math_max vs)))"

definition executeVariance :: "runtime \<Rightarrow> execution_context \<Rightarrow> error + jsnum" where
  "executeVariance rt context =
     (let cc = currentContext context in
      if length cc \<le> 1 then Inr (Fin 0)
      else andThen
        (numeric_values rt ''Cannot calculate variance of objects with multiple properties'' cc)
        (\<lambda>vs.
           if length vs \<le> 1 then Inr (Fin 0)
           else (let mean = jdiv (foldl jadd (Fin 0) vs) (Fin (real (length vs))) in
             Inr (jdiv
               (foldl (\<lambda>sum v. jadd sum (jmul (jsub v mean) (jsub v mean))) (Fin 0) vs)
               (Fin (real (length vs - 1)))))))"

definition executeStandardDeviation :: "runtime \<Rightarrow> execution_context \<Rightarrow> error + jsnum" where
  "executeStandardDeviation rt context =
     andThen (executeVariance rt context) (\<lambda>variance. Inr (math_sqrt rt variance))"

definition executeRange :: "runtime \<Rightarrow> execution_context \<Rightarrow> error + jsnum" where
  "executeRange rt context =
     andThen (executeMin rt context) (\<lambda>mn.
     andThen (executeMax rt context) (\<lambda>mx. Inr (jsub mx mn)))"

subsection \<open>Arithmetic on variables\<close>

definition executeDivide :: "runtime \<Rightarrow> string \<Rightarrow> string \<Rightarrow> execution_context \<Rightarrow> error + jsnum" where
  "executeDivide rt dividend divisor context =
     andThen (getVariableValue dividend context) (\<lambda>dividendValue.
     andThen (getVariableValue divisor context) (\<lambda>divisorValue.
       if divisorValue = VNum (Fin 0) then Inr (Fin 0)
       else Inr (jdiv (to_number rt dividendValue) (to_number rt divisorValue))))"

definition executeMultiply :: "runtime \<Rightarrow> string \<Rightarrow> string \<Rightarrow> execution_context \<Rightarrow> error + jsnum" where
  "executeMultiply rt factor1 factor2 context =
     andThen (getVariableValue factor1 context) (\<lambda>f1.
     andThen (getVariableValue factor2 context) (\<lambda>f2.
       Inr (jmul (to_number rt f1) (to_number rt f2))))"

definition executeSubtract :: "runtime \<Rightarrow> string \<Rightarrow> string \<Rightarrow> execution_context \<Rightarrow> error + jsnum" where
  "executeSubtract rt minuend subtrahend context =
     andThen (getVariableValue minuend context) (\<lambda>m.
     andThen (getVariableValue subtrahend context) (\<lambda>s.
       Inr (jsub (to_number rt m) (to_number rt s))))"

subsection \<open>Frequencies and UNIQUE\<close>

text \<open>The \<^verbatim>\<open>Map<string, {count, value}>\<close> of MOST_FREQUENT and LEAST_FREQUENT, in
  insertion order: one entry per key, holding the count and the first value seen.\<close>

type_synonym frequencies = "(string \<times> nat \<times> jsvalue) list"

fun count_value :: "string \<Rightarrow> jsvalue \<Rightarrow> frequencies \<Rightarrow> frequencies" where
  "count_value key v [] = [(key, 1, v)]"
| "count_value key v ((k, c, w) # rest) =
     (if k = key then (k, c + 1, w) # rest else (k, c, w) # count_value key v rest)"

text \<open>The value an element stands for: itself when it is not an object, the sole
  property of an object with one key, an error otherwise.\<close>

definition frequency_value :: "runtime \<Rightarrow> string \<Rightarrow> jsvalue \<Rightarrow> error + jsvalue" where
  "frequency_value rt msg item =
     (if is_primitive item then Inr item
      else (let keys = object_keys item in
        if length keys = 1 then property_of rt item (keys ! 0) else Inl (Error msg)))"

definition count_frequencies :: "runtime \<Rightarrow> string \<Rightarrow> jsvalue list \<Rightarrow> error + frequencies" where
  "count_frequencies rt msg cc =
     reduce_result
       (\<lambda>freqs item. andThen (frequency_value rt msg item)
          (\<lambda>v. if v = VNull \<or> v = VUndefined then Inr freqs
               else Inr (count_value (to_string rt v) v freqs)))
       [] cc"

definition most_frequent_entry :: "frequencies \<Rightarrow> jsvalue" where
  "most_frequent_entry freqs =
     snd (foldl (\<lambda>(maxCount, mostFrequent) (k, c, v).
                   if c > maxCount then (c, v) else (maxCount, mostFrequent))
            (0, VNull) freqs)"

text \<open>\<open>minCount\<close> starts at \<^verbatim>\<open>Infinity\<close>, which is \<open>None\<close> here.\<close>

definition least_frequent_entry :: "frequencies \<Rightarrow> jsvalue" where
  "least_frequent_entry freqs =
     snd (foldl (\<lambda>(minCount, leastFrequent) (k, c, v).
                   if (case minCount of None \<Rightarrow> True | Some m \<Rightarrow> c < m) then (Some c, v)
                   else (minCount, leastFrequent))
            (None, VNull) freqs)"

definition executeMostFrequent :: "runtime \<Rightarrow> execution_context \<Rightarrow> error + jsvalue" where
  "executeMostFrequent rt context =
     (let cc = currentContext context in
      if length cc = 0 then Inr VNull
      else andThen
        (count_frequencies rt
           ''Cannot find most frequent value of objects with multiple properties'' cc)
        (\<lambda>freqs. if length freqs = 0 then Inr VNull else Inr (most_frequent_entry freqs)))"

definition executeLeastFrequent :: "runtime \<Rightarrow> execution_context \<Rightarrow> error + jsvalue" where
  "executeLeastFrequent rt context =
     (let cc = currentContext context in
      if length cc = 0 then Inr VNull
      else andThen
        (count_frequencies rt
           ''Cannot find least frequent value of objects with multiple properties'' cc)
        (\<lambda>freqs. if length freqs = 0 then Inr VNull else Inr (least_frequent_entry freqs)))"

text \<open>\<^verbatim>\<open>Array.from(new Set(values))\<close>: a value is dropped when the set already holds
  it. Scalars are compared by value, objects by identity.\<close>

definition same_value_zero :: "jsvalue \<Rightarrow> jsvalue \<Rightarrow> bool" where
  "same_value_zero a b = (if is_object a then same_object a b else a = b)"

definition set_values :: "jsvalue list \<Rightarrow> jsvalue list" where
  "set_values vs =
     foldl (\<lambda>seen v. if list_ex (same_value_zero v) seen then seen else seen @ [v]) [] vs"

definition executeUnique :: "runtime \<Rightarrow> execution_context \<Rightarrow> error + jsvalue list" where
  "executeUnique rt context =
     (let cc = currentContext context in
      if length cc = 0 then Inr []
      else andThen
        (if is_primitive (cc ! 0) then Inr cc
         else (let keys = object_keys (cc ! 0) in
           if length keys = 1 then map_result (\<lambda>item. property_of rt item (keys ! 0)) cc
           else Inl (Error ''Cannot find unique values of objects with multiple properties'')))
        (\<lambda>vs. Inr (set_values (filter (\<lambda>v. v \<noteq> VNull \<and> v \<noteq> VUndefined) vs))))"

subsection \<open>PERCENT_OF\<close>

text \<open>The body of the \<^verbatim>\<open>try\<close> block: both SELECTs run on their own copies of the
  context. The caller's working set is only ever replaced by a copy of itself.\<close>

definition percent_of_body ::
  "runtime \<Rightarrow> select_operation \<Rightarrow> select_operation \<Rightarrow> execution_context \<Rightarrow> error + jsnum"
where
  "percent_of_body rt numerator denominator context =
     (let originalContext = currentContext context;
          contextCopy = \<lparr>data = data context, variables = variables context,
                         currentContext = originalContext\<rparr>
      in andThen (executeSelect rt numerator contextCopy) (\<lambda>(numeratorResult, c1).
         andThen (executeSelect rt denominator contextCopy) (\<lambda>(denominatorResult, c2).
           if length denominatorResult = 0 then Inr (Fin 0)
           else Inr (jmul (jdiv (Fin (real (length numeratorResult)))
                                (Fin (real (length denominatorResult)))) (Fin 100)))))"

text \<open>\<^verbatim>\<open>executePercentOf\<close>: whatever the \<^verbatim>\<open>try\<close> block throws is caught and turned into
  the result 0.\<close>

definition executePercentOf ::
  "runtime \<Rightarrow> select_operation \<Rightarrow> select_operation \<Rightarrow> execution_context \<Rightarrow> error + jsnum"
where
  "executePercentOf rt numerator denominator context =
     (case percent_of_body rt numerator denominator context of
        Inl e \<Rightarrow> Inr (Fin 0)
      | Inr percentage \<Rightarrow> Inr percentage)"

subsection \<open>Operations, query blocks, programs\<close>

text \<open>An operation works on the query's context and on the executor's own variable map
  (\<^verbatim>\<open>this.variables\<close>); it returns its result with both, updated.\<close>

type_synonym op_state = "execution_context \<times> varmap"

definition returning ::
  "op_state \<Rightarrow> ('a \<Rightarrow> jsvalue) \<Rightarrow> error + 'a \<Rightarrow> error + (jsvalue \<times> op_state)"
where
  "returning st wrap r = andThen r (\<lambda>x. Inr (wrap x, st))"

fun executeOperation :: "runtime \<Rightarrow> operation \<Rightarrow> op_state \<Rightarrow> error + (jsvalue \<times> op_state)" where
  "executeOperation rt (Select sel) (context, this_variables) =
     andThen (executeSelect rt sel context)
       (\<lambda>(result, context'). Inr (VList result, (context', this_variables)))"
| "executeOperation rt (CountOperation sel) (context, this_variables) =
     andThen (executeCount rt sel context)
       (\<lambda>(n, context'). Inr (VNum n, (context', this_variables)))"
| "executeOperation rt SumOperation (context, this_variables) =
     returning (context, this_variables) VNum (executeSum rt context)"
| "executeOperation rt (DivideOperation dividend divisor) (context, this_variables) =
     returning (context, this_variables) VNum (executeDivide rt dividend divisor context)"
| "executeOperation rt (MultiplyOperation factor1 factor2) (context, this_variables) =
     returning (context, this_variables) VNum (executeMultiply rt factor1 factor2 context)"
| "executeOperation rt (SubtractOperation minuend subtrahend) (context, this_variables) =
     returning (context, this_variables) VNum (executeSubtract rt minuend subtrahend context)"
| "executeOperation rt AverageOperation (context, this_variables) =
     returning (context, this_variables) VNum (executeAverage rt context)"
| "executeOperation rt MedianOperation (context, this_variables) =
     returning (context, this_variables) VNum (executeMedian rt context)"
| "executeOperation rt MinOperation (context, this_variables) =
     returning (context, this_variables) VNum (executeMin rt context)"
| "executeOperation rt MaxOperation (context, this_variables) =
     returning (context, this_variables) VNum (executeMax rt context)"
| "executeOperation rt (PercentOfOperation numerator denominator) (context, this_variables) =
     returning (context, this_variables) VNum (executePercentOf rt numerator denominator context)"
| "executeOperation rt MostFrequentOperation (context, this_variables) =
     returning (context, this_variables) id (executeMostFrequent rt context)"
| "executeOperation rt LeastFrequentOperation (context, this_variables) =
     returning (context, this_variables) id (executeLeastFrequent rt context)"
| "executeOperation rt UniqueOperation (context, this_variables) =
     returning (context, this_variables) VList (executeUnique rt context)"
| "executeOperation rt StandardDeviationOperation (context, this_variables) =
     returning (context, this_variables) VNum (executeStandardDeviation rt context)"
| "executeOperation rt VarianceOperation (context, this_variables) =
     returning (context, this_variables) VNum (executeVariance rt context)"
| "executeOperation rt RangeOperation (context, this_variables) =
     returning (context, this_variables) VNum (executeRange rt context)"
| "executeOperation rt (VariableAssignment vname operation) (context, this_variables) =
     andThen (executeOperation rt operation (context, this_variables))
       (\<lambda>(result, (context', this_variables')).
          Inr (result,
               (context'\<lparr>variables := AList.update vname result (variables context')\<rparr>,
                AList.update vname result this_variables')))"

text \<open>\<^verbatim>\<open>executeQueryBlock\<close>: the operations run in sequence; the block's result is the
  result of the last one, \<^verbatim>\<open>null\<close> when there is none.\<close>

fun run_operations ::
  "runtime \<Rightarrow> operation list \<Rightarrow> jsvalue \<Rightarrow> op_state \<Rightarrow> error + (jsvalue \<times> op_state)"
where
  "run_operations rt [] result st = Inr (result, st)"
| "run_operations rt (operation # rest) result st =
     andThen (executeOperation rt operation st)
       (\<lambda>(result', st'). run_operations rt rest result' st')"

definition executeQueryBlock ::
  "runtime \<Rightarrow> query_block \<Rightarrow> op_state \<Rightarrow> error + (jsvalue \<times> op_state)"
where
  "executeQueryBlock rt queryBlock st = run_operations rt (operations queryBlock) VNull st"

subsection \<open>USE paths\<close>

text \<open>The traversal loop of \<^verbatim>\<open>resolveDataFromUsePaths\<close>: a falsy next step ends the
  loop and keeps the location reached so far.\<close>

fun traverse_path :: "runtime \<Rightarrow> jsvalue \<Rightarrow> string list \<Rightarrow> error + jsvalue" where
  "traverse_path rt currentData [] = Inr currentData"
| "traverse_path rt currentData (part # parts) =
     andThen (property_of rt currentData part) (\<lambda>next.
       if falsy next then Inr currentData else traverse_path rt next parts)"

text \<open>The record of the fields of \<open>item\<close> that are not \<^verbatim>\<open>undefined\<close>, built by
  \<^verbatim>\<open>result[field] = item[field]\<close> from the empty record.\<close>

definition pick_fields :: "runtime \<Rightarrow> string list \<Rightarrow> jsvalue \<Rightarrow> error + jsvalue" where
  "pick_fields rt fs item =
     reduce_result
       (\<lambda>result field. andThen (property_of rt item field)
          (\<lambda>v. if v \<noteq> VUndefined then obj_set rt result field v else Inr result))
       (VObj []) fs"

text \<open>What one USE path adds to the resolved data: the elements of an array, an object
  itself, nothing for any other value; with a field list, the picked fields of each.
  The only built-in array, \<^verbatim>\<open>Array.prototype\<close>, has no elements.\<close>

definition resolve_use_path :: "runtime \<Rightarrow> jsvalue \<Rightarrow> use_path \<Rightarrow> error + jsvalue list" where
  "resolve_use_path rt tree usePath =
     andThen (traverse_path rt tree (split_dot (path usePath))) (\<lambda>currentData.
       if is_array currentData then
         (let items = (case currentData of VList xs \<Rightarrow> xs | _ \<Rightarrow> []) in
          case use_fields usePath of
            Some fs \<Rightarrow> map_result (pick_fields rt fs) items
          | None \<Rightarrow> Inr items)
       else if \<not> is_primitive currentData then
         (case use_fields usePath of
            Some fs \<Rightarrow> andThen (pick_fields rt fs currentData) (\<lambda>result. Inr [result])
          | None \<Rightarrow> Inr [currentData])
       else Inr [])"

definition resolveDataFromUsePaths ::
  "runtime \<Rightarrow> jsvalue \<Rightarrow> use_path list \<Rightarrow> error + jsvalue list"
where
  "resolveDataFromUsePaths rt tree ups =
     (if length ups = 0 then Inr []
      else reduce_result
             (\<lambda>resolvedData usePath. andThen (resolve_use_path rt tree usePath)
                (\<lambda>found. Inr (resolvedData @ found)))
             [] ups)"

definition createContextForQuery ::
  "runtime \<Rightarrow> program \<Rightarrow> jsvalue \<Rightarrow> varmap \<Rightarrow> error + execution_context"
where
  "createContextForQuery rt prog tree this_variables =
     andThen (resolveDataFromUsePaths rt tree (usePaths prog)) (\<lambda>resolved.
       Inr \<lparr>data = tree, variables = this_variables, currentContext = resolved\<rparr>)"

text \<open>\<^verbatim>\<open>Executor.execute\<close>: \<^verbatim>\<open>results[queryBlock.name] = ...\<close> for every block in turn, on
  a record that starts empty. A later block of the same name overwrites the earlier
  one; a block named \<^verbatim>\<open>__proto__\<close> runs the setter.\<close>

fun run_query_blocks ::
  "runtime \<Rightarrow> program \<Rightarrow> jsvalue \<Rightarrow> query_block list \<Rightarrow> jsvalue \<Rightarrow> varmap \<Rightarrow> error + jsvalue"
where
  "run_query_blocks rt prog tree [] results this_variables = Inr results"
| "run_query_blocks rt prog tree (queryBlock # rest) results this_variables =
     andThen (createContextForQuery rt prog tree this_variables) (\<lambda>queryContext.
     andThen (executeQueryBlock rt queryBlock (queryContext, this_variables))
       (\<lambda>(result, (context', this_variables')).
     andThen (obj_set rt results (name queryBlock) result) (\<lambda>results'.
          run_query_blocks rt prog tree rest results' this_variables')))"

definition executor_execute :: "runtime \<Rightarrow> program \<Rightarrow> jsvalue \<Rightarrow> error + jsvalue" where
  "executor_execute rt prog tree = run_query_blocks rt prog tree (queryBlocks prog) (VObj []) []"

section \<open>The tokenizer (tokenizer.ts)\<close>

datatype token_type =
    T_USE | T_QUERY | T_SELECT | T_EACH | T_WHERE | T_RETURN
  | T_COUNT | T_SUM | T_DIVIDE | T_MULTIPLY | T_SUBTRACT | T_AVERAGE | T_MEDIAN | T_MIN | T_MAX
  | T_PERCENT_OF | T_MOST_FREQUENT | T_LEAST_FREQUENT | T_UNIQUE | T_STANDARD_DEVIATION
  | T_VARIANCE | T_RANGE
  | T_CONTAINS | T_NOT_CONTAINS
  | T_VARIABLE | T_ASTERISK | T_COMMA | T_DOT
  | T_EQUALS | T_NOT_EQUALS | T_GREATER_THAN | T_LESS_THAN
  | T_GREATER_THAN_EQUALS | T_LESS_THAN_EQUALS
  | T_LEFT_BRACKET | T_RIGHT_BRACKET | T_LEFT_PAREN | T_RIGHT_PAREN
  | T_AMPERSAND | T_PIPE | T_NOT
  | T_IDENTIFIER | T_STRING | T_NUMBER | T_BOOLEAN | T_NULL
  | T_COMMENT | T_EOF | T_UNKNOWN

datatype token =
  Token (tok_type: token_type) (tok_value: string) (tok_line: nat) (tok_column: int)

definition isDigit :: "char \<Rightarrow> bool" where
  "isDigit c = ((of_char (CHR ''0'') :: nat) \<le> of_char c \<and> (of_char c :: nat) \<le> of_char (CHR ''9''))"

definition isAlpha :: "char \<Rightarrow> bool" where
  "isAlpha c =
     (((of_char (CHR ''a'') :: nat) \<le> of_char c \<and> (of_char c :: nat) \<le> of_char (CHR ''z''))
      \<or> ((of_char (CHR ''A'') :: nat) \<le> of_char c \<and> (of_char c :: nat) \<le> of_char (CHR ''Z''))
      \<or> c = CHR ''_'')"

definition isAlphaNumeric :: "char \<Rightarrow> bool" where
  "isAlphaNumeric c = (isAlpha c \<or> isDigit c)"

text \<open>The position bookkeeping of \<^verbatim>\<open>advance()\<close>: a line feed starts a new line at
  column 1, any other character moves one column on.\<close>

definition advance_position :: "nat \<times> int \<Rightarrow> char \<Rightarrow> nat \<times> int" where
  "advance_position pos c =
     (if c = CHR 0x0A then (fst pos + 1, 1) else (fst pos, snd pos + 1))"

text \<open>\<^verbatim>\<open>addToken\<close> after the lexeme \<open>lexeme\<close> has been consumed and the position is
  \<open>pos\<close>: the column is the current column minus the length of the lexeme.\<close>

definition addToken :: "token_type \<Rightarrow> string \<Rightarrow> string \<Rightarrow> nat \<times> int \<Rightarrow> token" where
  "addToken ty text lexeme pos = Token ty text (fst pos) (snd pos - int (length lexeme))"

text \<open>The keyword table of \<^verbatim>\<open>identifier()\<close>.\<close>

definition keyword_type :: "string \<Rightarrow> token_type" where
  "keyword_type text =
     (if text = ''USE'' then T_USE
      else if text = ''QUERY'' then T_QUERY
      else if text = ''SELECT'' then T_SELECT
      else if text = ''EACH'' then T_EACH
      else if text = ''WHERE'' then T_WHERE
      else if text = ''RETURN'' then T_RETURN
      else if text = ''COUNT'' then T_COUNT
      else if text = ''SUM'' then T_SUM
      else if text = ''DIVIDE'' then T_DIVIDE
      else if text = ''MULTIPLY'' then T_MULTIPLY
      else if text = ''SUBTRACT'' then T_SUBTRACT
      else if text = ''AVERAGE'' then T_AVERAGE
      else if text = ''MEDIAN'' then T_MEDIAN
      else if text = ''MIN'' then T_MIN
      else if text = ''MAX'' then T_MAX
      else if text = ''PERCENT_OF'' then T_PERCENT_OF
      else if text = ''MOST_FREQUENT'' then T_MOST_FREQUENT
      else if text = ''LEAST_FREQUENT'' then T_LEAST_FREQUENT
      else if text = ''UNIQUE'' then T_UNIQUE
      else if text = ''STANDARD_DEVIATION'' then T_STANDARD_DEVIATION
      else if text = ''VARIANCE'' then T_VARIANCE
      else if text = ''RANGE'' then T_RANGE
      else if text = ''CONTAINS'' then T_CONTAINS
      else if text = ''NOT_CONTAINS'' then T_NOT_CONTAINS
      else if text = ''true'' then T_BOOLEAN
      else if text = ''false'' then T_BOOLEAN
      else if text = ''null'' then T_NULL
      else T_IDENTIFIER)"

text \<open>A token made of one character, and one of the operators that take a following
  \<^verbatim>\<open>=\<close> when there is one (\<^verbatim>\<open>match("=")\<close>).\<close>

definition single_token :: "token_type \<Rightarrow> char \<Rightarrow> nat \<times> int \<Rightarrow> token list \<times> nat \<times> (nat \<times> int)" where
  "single_token ty c pos1 = ([addToken ty [c] [c] pos1], 0, pos1)"

definition with_equals ::
  "token_type \<Rightarrow> token_type \<Rightarrow> char \<Rightarrow> string \<Rightarrow> nat \<times> int \<Rightarrow> token list \<times> nat \<times> (nat \<times> int)"
where
  "with_equals ty_eq ty c rest pos1 =
     (case rest of
        d # ds \<Rightarrow>
          (if d = CHR ''='' then
             (let pos2 = (fst pos1, snd pos1 + 1) in
              ([addToken ty_eq [c, d] [c, d] pos2], 1, pos2))
           else single_token ty c pos1)
      | [] \<Rightarrow> single_token ty c pos1)"

text \<open>\<^verbatim>\<open>string(quote)\<close>: up to the closing quote, or to the end of the source for an
  unterminated literal, which becomes an UNKNOWN token.\<close>

definition scan_string :: "char \<Rightarrow> char \<Rightarrow> string \<Rightarrow> nat \<times> int \<Rightarrow> token list \<times> nat \<times> (nat \<times> int)" where
  "scan_string quote c rest pos1 =
     (let body = takeWhile (\<lambda>d. d \<noteq> quote) rest;
          after = dropWhile (\<lambda>d. d \<noteq> quote) rest;
          pos2 = foldl advance_position pos1 body
      in if after = [] then
           ([addToken T_UNKNOWN (c # body) (c # body) pos2], length body, pos2)
         else
           (let pos3 = advance_position pos2 quote in
            ([addToken T_STRING body (c # body @ [quote]) pos3], length body + 1, pos3)))"

definition scan_number :: "char \<Rightarrow> string \<Rightarrow> nat \<times> int \<Rightarrow> token list \<times> nat \<times> (nat \<times> int)" where
  "scan_number c rest pos1 =
     (let whole = takeWhile isDigit rest;
          after = dropWhile isDigit rest;
          fraction =
            (case after of
               d # e # es \<Rightarrow>
                 (if d = CHR ''.'' \<and> isDigit e then d # takeWhile isDigit (e # es) else [])
             | _ \<Rightarrow> []);
          numStr = c # whole @ fraction;
          pos2 = foldl advance_position pos1 (whole @ fraction)
      in ([addToken T_NUMBER numStr numStr pos2], length whole + length fraction, pos2))"

definition scan_identifier :: "char \<Rightarrow> string \<Rightarrow> nat \<times> int \<Rightarrow> token list \<times> nat \<times> (nat \<times> int)" where
  "scan_identifier c rest pos1 =
     (let body = takeWhile isAlphaNumeric rest;
          text = c # body;
          pos2 = foldl advance_position pos1 body
      in ([addToken (keyword_type text) text text pos2], length body, pos2))"

definition scan_variable :: "char \<Rightarrow> string \<Rightarrow> nat \<times> int \<Rightarrow> token list \<times> nat \<times> (nat \<times> int)" where
  "scan_variable c rest pos1 =
     (let body = takeWhile isAlphaNumeric rest;
          pos2 = foldl advance_position pos1 body
      in ([addToken T_VARIABLE (c # body) (c # body) pos2], length body, pos2))"

definition scan_slash :: "char \<Rightarrow> string \<Rightarrow> nat \<times> int \<Rightarrow> token list \<times> nat \<times> (nat \<times> int)" where
  "scan_slash c rest pos1 =
     (case rest of
        d # ds \<Rightarrow>
          (if d = CHR ''/'' then
             (let body = takeWhile (\<lambda>e. e \<noteq> CHR 0x0A) ds;
                  pos2 = foldl advance_position (fst pos1, snd pos1 + 1) body
              in ([addToken T_COMMENT (c # d # body) (c # d # body) pos2], 1 + length body, pos2))
           else ([addToken T_UNKNOWN [c] [c] pos1], 0, pos1))
      | [] \<Rightarrow> ([addToken T_UNKNOWN [c] [c] pos1], 0, pos1))"

text \<open>\<^verbatim>\<open>scanToken\<close> on the character \<open>c\<close> followed by \<open>rest\<close>, at position \<open>pos\<close>:
  the tokens added (none or one), how many characters of \<open>rest\<close> the lexeme takes, and
  the position after it.\<close>

definition scanToken :: "char \<Rightarrow> string \<Rightarrow> nat \<times> int \<Rightarrow> token list \<times> nat \<times> (nat \<times> int)" where
  "scanToken c rest pos =
     (let pos1 = advance_position pos c in
      if c = CHR ''('' then single_token T_LEFT_PAREN c pos1
      else if c = CHR '')'' then single_token T_RIGHT_PAREN c pos1
      else if c = CHR ''['' then single_token T_LEFT_BRACKET c pos1
      else if c = CHR '']'' then single_token T_RIGHT_BRACKET c pos1
      else if c = CHR '','' then single_token T_COMMA c pos1
      else if c = CHR ''.'' then single_token T_DOT c pos1
      else if c = CHR ''*'' then single_token T_ASTERISK c pos1
      else if c = CHR ''&'' then single_token T_AMPERSAND c pos1
      else if c = CHR ''|'' then single_token T_PIPE c pos1
      else if c = CHR ''='' then single_token T_EQUALS c pos1
      else if c = CHR ''!'' then with_equals T_NOT_EQUALS T_NOT c rest pos1
      else if c = CHR ''>'' then with_equals T_GREATER_THAN_EQUALS T_GREATER_THAN c rest pos1
      else if c = CHR ''<'' then with_equals T_LESS_THAN_EQUALS T_LESS_THAN c rest pos1
      else if c = CHR '' '' \<or> c = CHR 0x0D \<or> c = CHR 0x09 then ([], 0, pos1)
      else if c = CHR 0x0A then ([], 0, pos1)
      else if c = CHR 0x22 then scan_string (CHR 0x22) c rest pos1
      else if c = CHR 0x27 then scan_string (CHR 0x27) c rest pos1
      else if c = CHR ''/'' then scan_slash c rest pos1
      else if c = CHR ''$'' then scan_variable c rest pos1
      else if isDigit c then scan_number c rest pos1
      else if isAlpha c then scan_identifier c rest pos1
      else ([addToken T_UNKNOWN [c] [c] pos1], 0, pos1))"

text \<open>\<^verbatim>\<open>tokenize\<close>: the loop over the source, then the EOF token.\<close>

function tokenize_from :: "string \<Rightarrow> nat \<times> int \<Rightarrow> token list" where
  "tokenize_from [] pos = [Token T_EOF [] (fst pos) (snd pos)]"
| "tokenize_from (c # rest) pos =
     (case scanToken c rest pos of
        (toks, n, pos') \<Rightarrow> toks @ tokenize_from (drop n rest) pos')"
  by pat_completeness auto
termination
  by (relation "measure (\<lambda>(src, pos). length src)") auto

definition tokenize :: "string \<Rightarrow> token list" where
  "tokenize source = tokenize_from source (1, 1)"

section \<open>The parser (parser.ts)\<close>

text \<open>The parser's state is the token array and the index \<^verbatim>\<open>current\<close>; the model
  carries the tokens from \<^verbatim>\<open>current\<close> on. The array ends with the EOF token, which
  \<^verbatim>\<open>advance\<close> never passes. Loops and the recursion of the condition grammar are
  bounded by a budget that every call decrements.\<close>

definition peek :: "token list \<Rightarrow> token" where
  "peek ts = (case ts of [] \<Rightarrow> Token T_EOF [] 0 0 | t # rest \<Rightarrow> t)"

definition isAtEnd :: "token list \<Rightarrow> bool" where
  "isAtEnd ts = (tok_type (peek ts) = T_EOF)"

definition check :: "token_type \<Rightarrow> token list \<Rightarrow> bool" where
  "check ty ts = (if isAtEnd ts then False else tok_type (peek ts) = ty)"

definition advance :: "token list \<Rightarrow> token list" where
  "advance ts = (if isAtEnd ts then ts else tl ts)"

definition line_error :: "token list \<Rightarrow> string \<Rightarrow> error" where
  "line_error ts message = Error (''Line '' @ show_nat (tok_line (peek ts)) @ '': '' @ message)"

definition consume :: "token_type \<Rightarrow> string \<Rightarrow> token list \<Rightarrow> error + (token \<times> token list)" where
  "consume ty message ts =
     (if check ty ts then Inr (peek ts, advance ts) else Inl (line_error ts message))"

text \<open>\<^verbatim>\<open>parseFieldList\<close>: the do-while loop over \<^verbatim>\<open>field (, field)*\<close>.\<close>

fun field_list_loop :: "nat \<Rightarrow> token list \<Rightarrow> error + (string list \<times> token list)" where
  "field_list_loop 0 ts = Inl OutOfFuel"
| "field_list_loop (Suc n) ts =
     andThen (consume T_IDENTIFIER ''Expected field name'' ts) (\<lambda>(t, ts1).
       if check T_COMMA ts1 then
         andThen (field_list_loop n (advance ts1)) (\<lambda>(fs, ts2). Inr (tok_value t # fs, ts2))
       else Inr ([tok_value t], ts1))"

definition parseFieldList :: "token list \<Rightarrow> error + (string list \<times> token list)" where
  "parseFieldList ts =
     (if \<not> check T_RIGHT_BRACKET ts then field_list_loop (length ts) ts else Inr ([], ts))"

text \<open>\<^verbatim>\<open>parseUsePath\<close>. The loop \<^verbatim>\<open>while (this.match(DOT))\<close> collects identifiers; a
  bracket after a dot is parsed as the field list and ends the loop.\<close>

fun use_path_loop ::
  "nat \<Rightarrow> string list \<Rightarrow> token list \<Rightarrow> error + (string list \<times> string list option \<times> token list)"
where
  "use_path_loop 0 pathComponents ts = Inl OutOfFuel"
| "use_path_loop (Suc n) pathComponents ts =
     (if check T_DOT ts then
        (let ts1 = advance ts in
         if check T_LEFT_BRACKET ts1 then
           andThen (parseFieldList (advance ts1)) (\<lambda>(fs, ts2).
           andThen (consume T_RIGHT_BRACKET ''Expected closing ']' after fields'' ts2)
             (\<lambda>(t, ts3). Inr (pathComponents, Some fs, ts3)))
         else if check T_IDENTIFIER ts1 then
           use_path_loop n (pathComponents @ [tok_value (peek ts1)]) (advance ts1)
         else Inl (line_error ts1 ''Expected identifier or fields in USE path''))
      else Inr (pathComponents, None, ts))"

definition parseUsePath :: "token list \<Rightarrow> error + (use_path \<times> token list)" where
  "parseUsePath ts =
     (if check T_IDENTIFIER ts then
        andThen (consume T_IDENTIFIER ''Expected identifier in USE path'' ts) (\<lambda>(t, ts1).
        andThen (use_path_loop (length ts1) [tok_value t] ts1) (\<lambda>(pathComponents, fs, ts2).
          Inr (\<lparr>path = join ''.'' pathComponents, use_fields = fs\<rparr>, ts2)))
      else Inl (line_error ts ''Expected identifier in USE path''))"

subsection \<open>Conditions\<close>

text \<open>\<^verbatim>\<open>parseFloat\<close> on the text of a NUMBER token: digits, optionally a dot and more
  digits.\<close>

definition digits_value :: "string \<Rightarrow> nat" where
  "digits_value ds = foldl (\<lambda>a c. 10 * a + (of_char c - of_char (CHR ''0''))) 0 ds"

definition parseFloat :: "string \<Rightarrow> jsnum" where
  "parseFloat text =
     (let whole = takeWhile isDigit text;
          fraction = takeWhile isDigit (drop 1 (dropWhile isDigit text))
      in Fin (real (digits_value whole) + real (digits_value fraction) / 10 ^ length fraction))"

definition parseValue :: "token list \<Rightarrow> error + (jsvalue \<times> token list)" where
  "parseValue ts =
     (if check T_STRING ts then Inr (VStr (tok_value (peek ts)), advance ts)
      else if check T_NUMBER ts then Inr (VNum (parseFloat (tok_value (peek ts))), advance ts)
      else if check T_BOOLEAN ts then Inr (VBool (tok_value (peek ts) = ''true''), advance ts)
      else if check T_NULL ts then Inr (VNull, advance ts)
      else if check T_VARIABLE ts then Inr (VStr (tok_value (peek ts)), advance ts)
      else Inl (line_error ts ''Expected value in condition''))"

definition parseComparisonOperator :: "token list \<Rightarrow> error + (operator_type \<times> token list)" where
  "parseComparisonOperator ts =
     (if check T_EQUALS ts then Inr (O_EQUALS, advance ts)
      else if check T_NOT_EQUALS ts then Inr (O_NOT_EQUALS, advance ts)
      else if check T_GREATER_THAN ts then Inr (O_GREATER_THAN, advance ts)
      else if check T_LESS_THAN ts then Inr (O_LESS_THAN, advance ts)
      else if check T_GREATER_THAN_EQUALS ts then Inr (O_GREATER_THAN_EQUALS, advance ts)
      else if check T_LESS_THAN_EQUALS ts then Inr (O_LESS_THAN_EQUALS, advance ts)
      else if check T_CONTAINS ts then Inr (O_CONTAINS, advance ts)
      else if check T_NOT_CONTAINS ts then Inr (O_NOT_CONTAINS, advance ts)
      else Inl (line_error ts ''Expected operator in condition''))"

text \<open>The field comparison of \<^verbatim>\<open>parsePrimary\<close>.\<close>

definition parseComparison :: "token list \<Rightarrow> error + (condition \<times> token list)" where
  "parseComparison ts =
     andThen (consume T_IDENTIFIER ''Expected field name in condition'' ts) (\<lambda>(t, ts1).
     andThen (parseComparisonOperator ts1) (\<lambda>(operator, ts2).
     andThen (parseValue ts2) (\<lambda>(v, ts3).
       Inr (ComparisonCondition (tok_value t) operator v, ts3))))"

text \<open>The grammar functions \<^verbatim>\<open>parseLogicalOr\<close>, \<^verbatim>\<open>parseLogicalAnd\<close>, \<^verbatim>\<open>parseUnary\<close>
  and \<^verbatim>\<open>parsePrimary\<close> call each other; the two \<^verbatim>\<open>while\<close> loops carry the expression
  built so far. They are one recursive function over the rule being parsed.\<close>

datatype condition_rule =
    LogicalOr | OrLoop condition | LogicalAnd | AndLoop condition | Unary | Primary

fun parse_rule :: "nat \<Rightarrow> condition_rule \<Rightarrow> token list \<Rightarrow> error + (condition \<times> token list)" where
  "parse_rule 0 rule ts = Inl OutOfFuel"
| "parse_rule (Suc n) LogicalOr ts =
     andThen (parse_rule n LogicalAnd ts) (\<lambda>(expr, ts1). parse_rule n (OrLoop expr) ts1)"
| "parse_rule (Suc n) (OrLoop expr) ts =
     (if check T_PIPE ts then
        andThen (parse_rule n LogicalAnd (advance ts))
          (\<lambda>(right, ts1). parse_rule n (OrLoop (BinaryCondition O_OR expr right)) ts1)
      else Inr (expr, ts))"
| "parse_rule (Suc n) LogicalAnd ts =
     andThen (parse_rule n Unary ts) (\<lambda>(expr, ts1). parse_rule n (AndLoop expr) ts1)"
| "parse_rule (Suc n) (AndLoop expr) ts =
     (if check T_AMPERSAND ts then
        andThen (parse_rule n Unary (advance ts))
          (\<lambda>(right, ts1). parse_rule n (AndLoop (BinaryCondition O_AND expr right)) ts1)
      else Inr (expr, ts))"
| "parse_rule (Suc n) Unary ts =
     (if check T_NOT ts then
        andThen (parse_rule n Unary (advance ts))
          (\<lambda>(cond, ts1). Inr (UnaryCondition O_NOT cond, ts1))
      else parse_rule n Primary ts)"
| "parse_rule (Suc n) Primary ts =
     (if check T_LEFT_PAREN ts then
        andThen (parse_rule n LogicalOr (advance ts)) (\<lambda>(expr, ts1).
        andThen (consume T_RIGHT_PAREN ''Expected ')' after expression'' ts1)
          (\<lambda>(t, ts2). Inr (expr, ts2)))
      else parseComparison ts)"

definition parseLogicalOr :: "nat \<Rightarrow> token list \<Rightarrow> error + (condition \<times> token list)" where
  "parseLogicalOr n ts = parse_rule n LogicalOr ts"

text \<open>\<^verbatim>\<open>parseCondition\<close>; the budget covers the six calls a token can cost.\<close>

definition parseCondition :: "token list \<Rightarrow> error + (condition \<times> token list)" where
  "parseCondition ts = parseLogicalOr (6 * length ts + 6) ts"

subsection \<open>Operations\<close>

text \<open>The optional \<^verbatim>\<open>WHERE ( condition )\<close> that SELECT, COUNT and PERCENT_OF parse.\<close>

definition parseWhere :: "token list \<Rightarrow> error + (condition option \<times> token list)" where
  "parseWhere ts =
     (if check T_WHERE ts then
        andThen (consume T_LEFT_PAREN ''Expected '(' after WHERE'' (advance ts)) (\<lambda>(t1, ts1).
        andThen (parseCondition ts1) (\<lambda>(conds, ts2).
        andThen (consume T_RIGHT_PAREN ''Expected ')' after WHERE conditions'' ts2)
          (\<lambda>(t3, ts3). Inr (Some conds, ts3))))
      else Inr (None, ts))"

definition parseSelectFields :: "token list \<Rightarrow> error + (field_spec \<times> token list)" where
  "parseSelectFields ts =
     (if check T_ASTERISK ts then Inr (Star, advance ts)
      else if check T_LEFT_BRACKET ts then
        andThen (parseFieldList (advance ts)) (\<lambda>(fs, ts1).
        andThen (consume T_RIGHT_BRACKET ''Expected closing ']' after fields'' ts1)
          (\<lambda>(t, ts2). Inr (Fields fs, ts2)))
      else if check T_IDENTIFIER ts then Inr (Fields [tok_value (peek ts)], advance ts)
      else Inr (Star, ts))"

definition parseSelectOperation :: "token list \<Rightarrow> error + (select_operation \<times> token list)" where
  "parseSelectOperation ts =
     (let each = check T_EACH ts;
          ts0 = (if each then advance ts else ts)
      in andThen (parseSelectFields ts0) (\<lambda>(fs, ts1).
         andThen (parseWhere ts1) (\<lambda>(conds, ts2).
           Inr (SelectOperation fs conds (Some each), ts2))))"

text \<open>The SELECT that COUNT and PERCENT_OF build themselves when the next token is
  SELECT: all fields, the optional WHERE, no \<^verbatim>\<open>each\<close> member; the field list written
  after SELECT is not read. Without a SELECT token the ordinary SELECT parser runs.\<close>

definition parseInnerSelect :: "token list \<Rightarrow> error + (select_operation \<times> token list)" where
  "parseInnerSelect ts =
     (if check T_SELECT ts then
        andThen (parseWhere (advance ts)) (\<lambda>(conds, ts1).
          Inr (SelectOperation Star conds None, ts1))
      else parseSelectOperation ts)"

definition parseCountOperation :: "token list \<Rightarrow> error + (operation \<times> token list)" where
  "parseCountOperation ts =
     andThen (parseInnerSelect ts) (\<lambda>(sel, ts1). Inr (CountOperation sel, ts1))"

text \<open>The look-ahead of \<^verbatim>\<open>parsePercentOfOperation\<close>: a comma directly followed by
  SELECT anywhere in the remaining tokens.\<close>

fun comma_select_ahead :: "token list \<Rightarrow> bool" where
  "comma_select_ahead (a # b # rest) =
     ((tok_type a = T_COMMA \<and> tok_type b = T_SELECT) \<or> comma_select_ahead (b # rest))"
| "comma_select_ahead _ = False"

definition parsePercentOfOperation :: "token list \<Rightarrow> error + (operation \<times> token list)" where
  "parsePercentOfOperation ts =
     (let selectIsNext = comma_select_ahead ts in
      andThen (parseInnerSelect ts) (\<lambda>(numerator, ts1).
        (let ts2 = (if selectIsNext \<and> check T_COMMA ts1 then advance ts1 else ts1) in
         andThen (parseInnerSelect ts2) (\<lambda>(denominator, ts3).
           Inr (PercentOfOperation numerator denominator, ts3)))))"

definition parseTwoVariables ::
  "string \<Rightarrow> string \<Rightarrow> token list \<Rightarrow> error + ((string \<times> string) \<times> token list)"
where
  "parseTwoVariables message1 message2 ts =
     andThen (consume T_VARIABLE message1 ts) (\<lambda>(a, ts1).
     andThen (consume T_VARIABLE message2 ts1) (\<lambda>(b, ts2).
       Inr ((tok_value a, tok_value b), ts2)))"

definition parseDivideOperation :: "token list \<Rightarrow> error + (operation \<times> token list)" where
  "parseDivideOperation ts =
     andThen (parseTwoVariables ''Expected variable as dividend'' ''Expected variable as divisor'' ts)
       (\<lambda>((a, b), ts1). Inr (DivideOperation a b, ts1))"

definition parseMultiplyOperation :: "token list \<Rightarrow> error + (operation \<times> token list)" where
  "parseMultiplyOperation ts =
     andThen (parseTwoVariables ''Expected variable as first factor''
                ''Expected variable as second factor'' ts)
       (\<lambda>((a, b), ts1). Inr (MultiplyOperation a b, ts1))"

definition parseSubtractOperation :: "token list \<Rightarrow> error + (operation \<times> token list)" where
  "parseSubtractOperation ts =
     andThen (parseTwoVariables ''Expected variable as minuend''
                ''Expected variable as subtrahend'' ts)
       (\<lambda>((a, b), ts1). Inr (SubtractOperation a b, ts1))"

definition parseSelectAsOperation :: "token list \<Rightarrow> error + (operation \<times> token list)" where
  "parseSelectAsOperation ts =
     andThen (parseSelectOperation ts) (\<lambda>(sel, ts1). Inr (Select sel, ts1))"

definition parseVariableAssignment :: "token list \<Rightarrow> error + (operation \<times> token list)" where
  "parseVariableAssignment ts =
     andThen (consume T_VARIABLE ''Expected variable name'' ts) (\<lambda>(v, ts1).
     andThen
       (if check T_SUM ts1 then Inr (SumOperation, advance ts1)
        else if check T_COUNT ts1 then parseCountOperation (advance ts1)
        else if check T_MOST_FREQUENT ts1 then Inr (MostFrequentOperation, advance ts1)
        else if check T_LEAST_FREQUENT ts1 then Inr (LeastFrequentOperation, advance ts1)
        else if check T_AVERAGE ts1 then Inr (AverageOperation, advance ts1)
        else if check T_MEDIAN ts1 then Inr (MedianOperation, advance ts1)
        else if check T_MIN ts1 then Inr (MinOperation, advance ts1)
        else if check T_MAX ts1 then Inr (MaxOperation, advance ts1)
        else if check T_UNIQUE ts1 then Inr (UniqueOperation, advance ts1)
        else if check T_STANDARD_DEVIATION ts1 then Inr (StandardDeviationOperation, advance ts1)
        else if check T_VARIANCE ts1 then Inr (VarianceOperation, advance ts1)
        else if check T_RANGE ts1 then Inr (RangeOperation, advance ts1)
        else if check T_SELECT ts1 then parseSelectAsOperation (advance ts1)
        else Inl (line_error ts1 ''Expected operation after variable assignment''))
       (\<lambda>(operation, ts2). Inr (VariableAssignment (tok_value v) operation, ts2)))"

text \<open>One round of the loop of \<^verbatim>\<open>parseQueryBlock\<close>: an operation, when the token starts
  one, or nothing, after skipping an unknown token.\<close>

definition parseOperation :: "token list \<Rightarrow> error + (operation list \<times> token list)" where
  "parseOperation ts =
     (let one = (\<lambda>r. andThen r (\<lambda>(operation, ts1). Inr ([operation], ts1))) in
      if check T_VARIABLE ts then one (parseVariableAssignment ts)
      else if check T_SELECT ts then one (parseSelectAsOperation (advance ts))
      else if check T_COUNT ts then one (parseCountOperation (advance ts))
      else if check T_PERCENT_OF ts then one (parsePercentOfOperation (advance ts))
      else if check T_SUM ts then Inr ([SumOperation], advance ts)
      else if check T_DIVIDE ts then one (parseDivideOperation (advance ts))
      else if check T_MULTIPLY ts then one (parseMultiplyOperation (advance ts))
      else if check T_SUBTRACT ts then one (parseSubtractOperation (advance ts))
      else if check T_AVERAGE ts then Inr ([AverageOperation], advance ts)
      else if check T_MEDIAN ts then Inr ([MedianOperation], advance ts)
      else if check T_MIN ts then Inr ([MinOperation], advance ts)
      else if check T_MAX ts then Inr ([MaxOperation], advance ts)
      else if check T_MOST_FREQUENT ts then Inr ([MostFrequentOperation], advance ts)
      else if check T_LEAST_FREQUENT ts then Inr ([LeastFrequentOperation], advance ts)
      else if check T_UNIQUE ts then Inr ([UniqueOperation], advance ts)
      else if check T_STANDARD_DEVIATION ts then Inr ([StandardDeviationOperation], advance ts)
      else if check T_VARIANCE ts then Inr ([VarianceOperation], advance ts)
      else if check T_RANGE ts then Inr ([RangeOperation], advance ts)
      else Inr ([], advance ts))"

fun operations_loop :: "nat \<Rightarrow> token list \<Rightarrow> error + (operation list \<times> token list)" where
  "operations_loop 0 ts = Inl OutOfFuel"
| "operations_loop (Suc n) ts =
     (if \<not> check T_RETURN ts \<and> \<not> check T_QUERY ts \<and> \<not> isAtEnd ts then
        andThen (parseOperation ts) (\<lambda>(ops1, ts1).
        andThen (operations_loop n ts1) (\<lambda>(ops2, ts2). Inr (ops1 @ ops2, ts2)))
      else Inr ([], ts))"

definition parseQueryBlock :: "token list \<Rightarrow> error + (query_block \<times> token list)" where
  "parseQueryBlock ts =
     andThen (consume T_IDENTIFIER ''Expected query name after QUERY'' ts) (\<lambda>(t, ts1).
     andThen (operations_loop (length ts1 + 1) ts1) (\<lambda>(ops, ts2).
     andThen (consume T_RETURN ''Expected RETURN at end of query block'' ts2) (\<lambda>(r, ts3).
       Inr (\<lparr>name = tok_value t, operations = ops\<rparr>, ts3))))"

text \<open>\<^verbatim>\<open>parse\<close>: comments and unknown tokens are skipped, every USE adds a path and every
  QUERY a block, in the order met.\<close>

fun program_loop :: "nat \<Rightarrow> program \<Rightarrow> token list \<Rightarrow> error + program" where
  "program_loop 0 prog ts = Inl OutOfFuel"
| "program_loop (Suc n) prog ts =
     (if isAtEnd ts then Inr prog
      else if check T_COMMENT ts then program_loop n prog (advance ts)
      else if check T_USE ts then
        andThen (parseUsePath (advance ts)) (\<lambda>(usePath, ts1).
          program_loop n (prog\<lparr>usePaths := usePaths prog @ [usePath]\<rparr>) ts1)
      else if check T_QUERY ts then
        andThen (parseQueryBlock (advance ts)) (\<lambda>(queryBlock, ts1).
          program_loop n (prog\<lparr>queryBlocks := queryBlocks prog @ [queryBlock]\<rparr>) ts1)
      else program_loop n prog (advance ts))"

definition parse :: "token list \<Rightarrow> error + program" where
  "parse ts = program_loop (length ts + 1) \<lparr>usePaths = [], queryBlocks = []\<rparr> ts"

section \<open>The query object (ssoql.ts)\<close>

definition expectedObjects :: "program \<Rightarrow> string list" where
  "expectedObjects ast = map path (usePaths ast)"

text \<open>What the loop of \<^verbatim>\<open>execute\<close> stores for a result: a primitive result itself,
  for every other result what \<^verbatim>\<open>JSON.stringify\<close> returns.\<close>

definition sanitize :: "runtime \<Rightarrow> jsvalue \<Rightarrow> jsvalue" where
  "sanitize rt v =
     (case v of
        VNull \<Rightarrow> v | VStr s \<Rightarrow> v | VNum n \<Rightarrow> v | VBool b \<Rightarrow> v
      | _ \<Rightarrow> json_value rt v)"

text \<open>\<^verbatim>\<open>execute\<close>: the loop \<^verbatim>\<open>for (const key in results)\<close> fills the record
  \<^verbatim>\<open>sanitizedResults\<close>, which is returned. The returned record is given by its own
  properties, in enumeration order.\<close>

definition execute :: "runtime \<Rightarrow> program \<Rightarrow> jsvalue \<Rightarrow> error + (string \<times> jsvalue) list" where
  "execute rt ast tree =
     andThen (executor_execute rt ast tree) (\<lambda>results.
     andThen
       (reduce_result
          (\<lambda>sanitizedResults key. andThen (property_of rt results key)
             (\<lambda>v. obj_set rt sanitizedResults key (sanitize rt v)))
          (VObj []) (for_in_keys results))
       (\<lambda>sanitizedResults. Inr (own_entries sanitizedResults)))"

text \<open>\<^verbatim>\<open>parseQuery\<close> and the two members of the object \<^verbatim>\<open>createQuery\<close> returns; a query
  text that does not parse makes \<^verbatim>\<open>createQuery\<close> itself throw.\<close>

definition parseQuery :: "string \<Rightarrow> error + program" where
  "parseQuery queryText = parse (tokenize queryText)"

definition query_expectedObjects :: "string \<Rightarrow> error + string list" where
  "query_expectedObjects queryText =
     andThen (parseQuery queryText) (\<lambda>ast. Inr (expectedObjects ast))"

definition query_execute :: "runtime \<Rightarrow> string \<Rightarrow> jsvalue \<Rightarrow> error + (string \<times> jsvalue) list" where
  "query_execute rt queryText tree =
     andThen (parseQuery queryText) (\<lambda>ast. execute rt ast tree)"

section \<open>A runtime instance and sample data\<close>

text \<open>Concrete inputs need a concrete runtime. This one renders the integers in decimal
  (other finite numbers by their integer part) and reads the texts made of decimal
  digits, the empty text being 0 and any other text \<^verbatim>\<open>NaN\<close>; on these inputs it agrees
  with \<^verbatim>\<open>String\<close> and \<^verbatim>\<open>Number\<close>. Of the built-in objects it knows a fragment: the
  property \<^verbatim>\<open>constructor\<close> of records, arrays and scalars, the methods that a record
  inherits from \<^verbatim>\<open>Object.prototype\<close>, and the read-only properties of functions and of
  \<^verbatim>\<open>String.prototype\<close>; every other inherited property is \<^verbatim>\<open>undefined\<close> in it. The
  properties stated for every runtime do not depend on it.\<close>

definition demo_num_to_string :: "jsnum \<Rightarrow> string" where
  "demo_num_to_string n =
     (case n of
        NaN \<Rightarrow> ''NaN''
      | PInf \<Rightarrow> ''Infinity''
      | NInf \<Rightarrow> ''-Infinity''
      | Fin r \<Rightarrow> (if r < 0 then ''-'' else []) @ show_nat (nat \<lfloor>\<bar>r\<bar>\<rfloor>))"

definition demo_string_to_num :: "string \<Rightarrow> jsnum" where
  "demo_string_to_num s =
     (if s = [] then Fin 0
      else if list_all isDigit s then Fin (real (digits_value s))
      else NaN)"

definition demo_sqrt :: "jsnum \<Rightarrow> jsnum" where
  "demo_sqrt n =
     (case n of
        Fin r \<Rightarrow> (if r < 0 then NaN else Fin (sqrt r))
      | PInf \<Rightarrow> PInf
      | _ \<Rightarrow> NaN)"

definition demo_inherited :: "jsvalue \<Rightarrow> string \<Rightarrow> error + jsvalue" where
  "demo_inherited v key =
     (if key = ''constructor'' then
        (case v of
           VObj kvs \<Rightarrow> Inr (VBuiltin BFunction ''Object'')
         | VList xs \<Rightarrow> Inr (VBuiltin BFunction ''Array'')
         | VStr s \<Rightarrow> Inr (VBuiltin BFunction ''String'')
         | VNum n \<Rightarrow> Inr (VBuiltin BFunction ''Number'')
         | VBool b \<Rightarrow> Inr (VBuiltin BFunction ''Boolean'')
         | _ \<Rightarrow> Inr VUndefined)
      else if key \<in> set [''hasOwnProperty'', ''isPrototypeOf'', ''propertyIsEnumerable'',
                          ''toLocaleString'', ''toString'', ''valueOf'']
        then (case v of
                VObj kvs \<Rightarrow> Inr (VBuiltin BFunction (''Object.prototype.'' @ key))
              | _ \<Rightarrow> Inr VUndefined)
      else Inr VUndefined)"

definition demo_refuses_assignment :: "jsvalue \<Rightarrow> string \<Rightarrow> bool" where
  "demo_refuses_assignment v key =
     (case v of
        VBuiltin k n \<Rightarrow>
          (k = BFunction \<and> key \<in> set [''name'', ''length'', ''prototype'', ''caller'', ''arguments''])
          \<or> (n = ''String.prototype'' \<and> key = ''length'')
      | _ \<Rightarrow> False)"

text \<open>The text of a built-in function shows the last part of its name.\<close>

definition demo_host_to_string :: "jsvalue \<Rightarrow> string" where
  "demo_host_to_string v =
     (case v of
        VBuiltin k n \<Rightarrow>
          (if k = BFunction then ''function '' @ last (split_dot n) @ ''() { [native code] }''
           else if n = ''Number.prototype'' then ''0''
           else if n = ''Boolean.prototype'' then ''false''
           else if n = ''Object.prototype'' then ''[object Object]''
           else [])
      | _ \<Rightarrow> ''[object Object]'')"

definition demo_host_to_number :: "jsvalue \<Rightarrow> jsnum" where
  "demo_host_to_number v =
     (case v of
        VBuiltin k n \<Rightarrow>
          (if k = BFunction \<or> n = ''Object.prototype'' then NaN else Fin 0)
      | _ \<Rightarrow> NaN)"

definition demo_host_json :: "jsvalue \<Rightarrow> string option" where
  "demo_host_json v =
     (case v of
        VBuiltin k n \<Rightarrow>
          (if k = BArray then Some ''[]''
           else if n = ''Number.prototype'' then Some ''0''
           else if n = ''Boolean.prototype'' then Some ''false''
           else if n = ''String.prototype'' then Some [CHR 0x22, CHR 0x22]
           else Some ''{}'')
      | _ \<Rightarrow> Some ''{}'')"

definition demo_runtime :: runtime where
  "demo_runtime =
     \<lparr>num_to_string = demo_num_to_string, string_to_num = demo_string_to_num,
      math_sqrt = demo_sqrt, inherited = demo_inherited,
      refuses_assignment = demo_refuses_assignment,
      host_to_string = demo_host_to_string, host_to_number = demo_host_to_number,
      host_json = demo_host_json\<rparr>"

text \<open>A context over an empty data tree, holding the given variables and working set.\<close>

definition demo_context :: "varmap \<Rightarrow> jsvalue list \<Rightarrow> execution_context" where
  "demo_context vars workingSet =
     \<lparr>data = VObj [], variables = vars, currentContext = workingSet\<rparr>"

section \<open>Notions used by the properties\<close>

text \<open>The results a host may receive from \<^verbatim>\<open>execute\<close> according to its declared type:
  \<^verbatim>\<open>string | number | boolean | null\<close>.\<close>

fun primitive_result :: "jsvalue \<Rightarrow> bool" where
  "primitive_result VNull = True"
| "primitive_result (VBool b) = True"
| "primitive_result (VNum n) = True"
| "primitive_result (VStr s) = True"
| "primitive_result _ = False"











text \<open>Scenario D of the specification: \<^verbatim>\<open>y.w1.plays\<close> holds two records and
  \<^verbatim>\<open>y.w2.plays\<close> three. The product list is the data of the round-trip examples.\<close>

definition scenario_d_data :: jsvalue where
  "scenario_d_data =
     VObj [(''y'', VObj
       [(''w1'', VObj [(''plays'', VList [VObj [(''n'', VNum (Fin 1))],
                                          VObj [(''n'', VNum (Fin 2))]])]),
        (''w2'', VObj [(''plays'', VList [VObj [(''n'', VNum (Fin 3))],
                                          VObj [(''n'', VNum (Fin 4))],
                                          VObj [(''n'', VNum (Fin 5))]])])])]"


text \<open>Notions for the numeric aggregates. An element is numeric when \<^verbatim>\<open>Number\<close> does not
  turn it into \<^verbatim>\<open>NaN\<close>; \<open>zero_if_not_numeric\<close> is the coercion the specification
  describes. \<open>single_key k v\<close> is the projection \<^verbatim>\<open>{k: v}\<close>, and \<open>working_on\<close> a context
  with the given working set.\<close>

definition numeric :: "runtime \<Rightarrow> jsvalue \<Rightarrow> bool" where
  "numeric rt v = (\<not> isNaN (to_number rt v))"

definition zero_if_not_numeric :: "runtime \<Rightarrow> jsvalue \<Rightarrow> jsvalue" where
  "zero_if_not_numeric rt v = (if numeric rt v then v else VNum (Fin 0))"

fun is_finite :: "jsnum \<Rightarrow> bool" where
  "is_finite (Fin r) = True"
| "is_finite _ = False"

definition no_infinity :: "runtime \<Rightarrow> jsvalue \<Rightarrow> bool" where
  "no_infinity rt v = (to_number rt v \<noteq> PInf \<and> to_number rt v \<noteq> NInf)"

definition finite_result :: "error + jsnum \<Rightarrow> bool" where
  "finite_result r = (case r of Inl e \<Rightarrow> False | Inr n \<Rightarrow> is_finite n)"

definition single_key :: "string \<Rightarrow> jsvalue \<Rightarrow> jsvalue" where
  "single_key k v = VObj [(k, v)]"

definition working_on :: "execution_context \<Rightarrow> jsvalue list \<Rightarrow> execution_context" where
  "working_on context cc = context\<lparr>currentContext := cc\<rparr>"

text \<open>MEDIAN, MIN, MAX and VARIANCE see a working set only through its length and the
  numbers \<open>numeric_values\<close> extracts: two working sets that give the same numbers, the
  second being no longer than the numbers are many, give the same result.\<close>

definition same_numbers ::
  "runtime \<Rightarrow> jsvalue list \<Rightarrow> jsvalue list \<Rightarrow> jsnum list \<Rightarrow> bool"
where
  "same_numbers rt cc cc' nums =
     ((\<forall>msg. cc \<noteq> [] \<longrightarrow> numeric_values rt msg cc = Inr nums)
      \<and> (\<forall>msg. cc' \<noteq> [] \<longrightarrow> numeric_values rt msg cc' = Inr nums)
      \<and> length cc' = length nums \<and> length nums \<le> length cc)"

text \<open>Notions for MOST_FREQUENT and LEAST_FREQUENT. An element can be counted when it
  is a scalar or has exactly one property; \<open>sole_value\<close> is the value it stands for, and
  the counted values of a working set are those that are neither \<^verbatim>\<open>null\<close> nor
  \<^verbatim>\<open>undefined\<close>. The group count of a value is the number of counted values with the
  same text (\<^verbatim>\<open>String(value)\<close>).\<close>

fun sole_value :: "jsvalue \<Rightarrow> jsvalue" where
  "sole_value (VObj [(k, v)]) = v"
| "sole_value (VDerived p [(k, v)]) = v"
| "sole_value (VList [x]) = x"
| "sole_value v = v"

definition countable :: "jsvalue \<Rightarrow> bool" where
  "countable item = (is_primitive item \<or> length (object_keys item) = 1)"

definition counted_values :: "jsvalue list \<Rightarrow> jsvalue list" where
  "counted_values cc = filter (\<lambda>v. v \<noteq> VNull \<and> v \<noteq> VUndefined) (map sole_value cc)"

definition group_count :: "runtime \<Rightarrow> jsvalue list \<Rightarrow> jsvalue \<Rightarrow> nat" where
  "group_count rt vals v = length (filter (\<lambda>w. to_string rt w = to_string rt v) vals)"

definition first_most_frequent :: "runtime \<Rightarrow> jsvalue list \<Rightarrow> jsvalue" where
  "first_most_frequent rt vals =
     (case find (\<lambda>v. list_all (\<lambda>w. group_count rt vals w \<le> group_count rt vals v) vals) vals of
        Some v \<Rightarrow> v
      | None \<Rightarrow> VNull)"

definition first_least_frequent :: "runtime \<Rightarrow> jsvalue list \<Rightarrow> jsvalue" where
  "first_least_frequent rt vals =
     (case find (\<lambda>v. list_all (\<lambda>w. group_count rt vals v \<le> group_count rt vals w) vals) vals of
        Some v \<Rightarrow> v
      | None \<Rightarrow> VNull)"

text \<open>The frequency table after counting the values \<open>vals\<close>, and the groups of \<open>vals\<close> in
  the order in which their first members appear.\<close>

definition tally :: "runtime \<Rightarrow> frequencies \<Rightarrow> jsvalue list \<Rightarrow> frequencies" where
  "tally rt freqs vals = foldl (\<lambda>fs v. count_value (to_string rt v) v fs) freqs vals"

function groups :: "runtime \<Rightarrow> jsvalue list \<Rightarrow> frequencies" where
  "groups rt [] = []"
| "groups rt (v # vs) =
     (to_string rt v, Suc (group_count rt vs v), v)
       # groups rt (filter (\<lambda>u. to_string rt u \<noteq> to_string rt v) vs)"
  by pat_completeness auto
termination
  by (relation "measure (\<lambda>(rt, vs). length vs)") (auto simp: less_Suc_eq_le)

definition key_count :: "runtime \<Rightarrow> jsvalue list \<Rightarrow> string \<Rightarrow> nat" where
  "key_count rt vals k = length (filter (\<lambda>w. to_string rt w = k) vals)"

text \<open>The largest and the smallest count of a frequency table, and the value of its
  first entry with a given count.\<close>

fun top_count :: "nat \<Rightarrow> frequencies \<Rightarrow> nat" where
  "top_count m [] = m"
| "top_count m ((k, c, w) # es) = top_count (max m c) es"

fun bottom_count :: "nat \<Rightarrow> frequencies \<Rightarrow> nat" where
  "bottom_count m [] = m"
| "bottom_count m ((k, c, w) # es) = bottom_count (min m c) es"

definition entry_with :: "nat \<Rightarrow> frequencies \<Rightarrow> jsvalue option" where
  "entry_with n es = map_option (\<lambda>(k, c, w). w) (find (\<lambda>(k, c, w). c = n) es)"

text \<open>Notions for the expected objects. The USE declarations of a token stream can be
  read off without parsing the operations: a query block reaches from QUERY to the
  first RETURN after it, the stream ends at EOF, and every USE token outside a query
  block is a declaration, whose path is the run \<^verbatim>\<open>identifier (. identifier)*\<close> that
  follows the token; whatever comes after that run, a bracketed list included, is not
  part of the path.\<close>

fun more_segments :: "token list \<Rightarrow> string list" where
  "more_segments (d # t # rest) =
     (if tok_type d = T_DOT \<and> tok_type t = T_IDENTIFIER then tok_value t # more_segments rest
      else [])"
| "more_segments ts = []"

definition dotted_segments :: "token list \<Rightarrow> string list" where
  "dotted_segments ts =
     (case ts of
        [] \<Rightarrow> []
      | t # rest \<Rightarrow> (if tok_type t = T_IDENTIFIER then tok_value t # more_segments rest else []))"

definition after_return :: "token list \<Rightarrow> token list" where
  "after_return ts = drop 1 (dropWhile (\<lambda>t. tok_type t \<noteq> T_RETURN) ts)"

function declared_paths :: "token list \<Rightarrow> string list" where
  "declared_paths [] = []"
| "declared_paths (t # ts) =
     (if tok_type t = T_EOF then []
      else if tok_type t = T_USE then join ''.'' (dotted_segments ts) # declared_paths ts
      else if tok_type t = T_QUERY then declared_paths (after_return ts)
      else declared_paths ts)"
  by pat_completeness auto
termination
proof (relation "measure length")
  show "wf (measure length)" by simp
next
  fix t :: token and ts :: "token list"
  have "length (dropWhile (\<lambda>t. tok_type t \<noteq> T_RETURN) ts) \<le> length ts"
    by (rule length_dropWhile_le)
  then have "length (after_return ts) \<le> length ts"
    by (simp add: after_return_def)
  then show "(after_return ts, t # ts) \<in> measure length" by simp
qed simp_all

section \<open>Properties\<close>

subsection \<open>Basic facts\<close>

lemma andThen_Inr [simp]: "andThen (Inr x) f = f x"
  by (simp add: andThen_def)

lemma andThen_Inl [simp]: "andThen (Inl e) f = Inl e"
  by (simp add: andThen_def)

text \<open>The definitions that evaluating a whole program unfolds.\<close>

lemmas exec_defs = execute_def executor_execute_def createContextForQuery_def
  resolveDataFromUsePaths_def resolve_use_path_def pick_fields_def executeQueryBlock_def
  sanitize_def json_value_def returning_def falsy_def obj_set_def

text \<open>\<^verbatim>\<open>v[key]\<close> by the kind of \<open>v\<close>.\<close>

lemma property_of_simps [simp]:
  "property_of rt VUndefined key = Inl TypeError"
  "property_of rt VNull key = Inl TypeError"
  "property_of rt (VBool b) key =
     (if key = ''__proto__'' then Inr (VBuiltin BObject ''Boolean.prototype'')
      else inherited rt (VBool b) key)"
  "property_of rt (VNum n) key =
     (if key = ''__proto__'' then Inr (VBuiltin BObject ''Number.prototype'')
      else inherited rt (VNum n) key)"
  "property_of rt (VStr s) key =
     (case own_property (VStr s) key of
        Some x \<Rightarrow> Inr x
      | None \<Rightarrow> (if key = ''__proto__'' then Inr (VBuiltin BObject ''String.prototype'')
                 else inherited rt (VStr s) key))"
  "property_of rt (VList xs) key =
     (case own_property (VList xs) key of
        Some x \<Rightarrow> Inr x
      | None \<Rightarrow> (if key = ''__proto__'' then Inr (VBuiltin BArray ''Array.prototype'')
                 else inherited rt (VList xs) key))"
  "property_of rt (VObj kvs) key =
     (case map_of kvs key of
        Some x \<Rightarrow> Inr x
      | None \<Rightarrow> (if key = ''__proto__'' then Inr (VBuiltin BObject ''Object.prototype'')
                 else inherited rt (VObj kvs) key))"
  "property_of rt (VDerived p kvs) key =
     (case map_of kvs key of
        Some x \<Rightarrow> Inr x
      | None \<Rightarrow> (if p = VNull then Inr VUndefined else lookup rt (VDerived p kvs) p key))"
  "property_of rt (VBuiltin kind builtin) key = inherited rt (VBuiltin kind builtin) key"
  by (simp_all add: property_of_def split: option.splits)

text \<open>The sample runtime refuses no assignment on a record or an array.\<close>

lemma demo_refuses_nothing [simp]:
  "refuses_assignment demo_runtime (VObj kvs) key = False"
  "refuses_assignment demo_runtime (VList xs) key = False"
  by (simp_all add: demo_runtime_def demo_refuses_assignment_def)

text \<open>The first property of a record.\<close>

lemma set_own_empty [simp]: "set_own key v [] = [(key, v)]"
  by (simp add: set_own_def split: option.splits)

text \<open>SELECT never reads a row: its selection is empty whatever the operation, the
  data and the working set are, and it cannot throw.\<close>

lemma executeSelect_empty:
  "executeSelect rt sel ctx = Inr ([], ctx\<lparr>currentContext := []\<rparr>)"
  by (cases sel) (simp add: executeSelect_def split: option.splits field_spec.splits)

lemma executeCount_zero: "executeCount rt sel ctx = Inr (Fin 0, ctx)"
  by (simp add: executeCount_def executeSelect_empty)

subsection \<open>Aggregates over an empty working set\<close>

text \<open>
  C6. Over an empty working set SUM, COUNT, AVERAGE, MEDIAN, MIN, MAX, VARIANCE and
  RANGE each return 0, UNIQUE returns the empty list, and MOST_FREQUENT and
  LEAST_FREQUENT return null; none of them throws, and the state is unchanged.
\<close>

theorem aggregate_boundary:
  fixes ctx :: execution_context
  defines "c0 \<equiv> ctx\<lparr>currentContext := []\<rparr>"
  shows "executeOperation rt SumOperation (c0, gv) = Inr (VNum (Fin 0), (c0, gv))
    \<and> executeOperation rt (CountOperation sel) (c0, gv) = Inr (VNum (Fin 0), (c0, gv))
    \<and> executeOperation rt AverageOperation (c0, gv) = Inr (VNum (Fin 0), (c0, gv))
    \<and> executeOperation rt MedianOperation (c0, gv) = Inr (VNum (Fin 0), (c0, gv))
    \<and> executeOperation rt MinOperation (c0, gv) = Inr (VNum (Fin 0), (c0, gv))
    \<and> executeOperation rt MaxOperation (c0, gv) = Inr (VNum (Fin 0), (c0, gv))
    \<and> executeOperation rt VarianceOperation (c0, gv) = Inr (VNum (Fin 0), (c0, gv))
    \<and> executeOperation rt RangeOperation (c0, gv) = Inr (VNum (Fin 0), (c0, gv))
    \<and> executeOperation rt UniqueOperation (c0, gv) = Inr (VList [], (c0, gv))
    \<and> executeOperation rt MostFrequentOperation (c0, gv) = Inr (VNull, (c0, gv))
    \<and> executeOperation rt LeastFrequentOperation (c0, gv) = Inr (VNull, (c0, gv))"
  unfolding c0_def
  by (simp add: returning_def executeSum_def executeCount_zero executeAverage_def
        executeMedian_def executeMin_def executeMax_def executeVariance_def executeRange_def
        executeUnique_def executeMostFrequent_def executeLeastFrequent_def jsub_def)

subsection \<open>COUNT leaves the working set alone\<close>

text \<open>
  C8. For every COUNT operation and every state, COUNT returns the length of the list
  its inner SELECT produces on a copy of the current working set, and the caller's
  context (working set included, element for element) is the same after the COUNT as
  before it.
\<close>

theorem count_frame:
  "\<exists>selectResult inner.
     executeSelect rt sel (ctx\<lparr>currentContext := currentContext ctx\<rparr>) = Inr (selectResult, inner)
     \<and> executeOperation rt (CountOperation sel) (ctx, gv)
         = Inr (VNum (Fin (real (length selectResult))), (ctx, gv))"
  by (simp add: executeCount_def executeSelect_empty)

subsection \<open>Division by zero\<close>

text \<open>
  C9. In every state in which both variables of a DIVIDE have been assigned and the
  divisor's value is the number 0, DIVIDE returns 0 and does not throw.
\<close>

theorem divide_by_zero:
  assumes "map_of (variables ctx) dividend = Some x"
    and "map_of (variables ctx) divisor = Some (VNum (Fin 0))"
  shows "executeOperation rt (DivideOperation dividend divisor) (ctx, gv)
           = Inr (VNum (Fin 0), (ctx, gv))"
  using assms by (simp add: returning_def executeDivide_def getVariableValue_def)

theorem divide_by_zero_witness:
  "executeOperation demo_runtime (DivideOperation ''$a'' ''$b'')
       (demo_context [(''$a'', VNum (Fin 7)), (''$b'', VNum (Fin 0))] [], [])
     = Inr (VNum (Fin 0), (demo_context [(''$a'', VNum (Fin 7)), (''$b'', VNum (Fin 0))] [], []))"
  by (rule divide_by_zero [where x = "VNum (Fin 7)"]) (simp_all add: demo_context_def)

subsection \<open>What the host receives\<close>

lemma parse_inherited:
  "parseQuery ''USE a.[constructor] QUERY q MOST_FREQUENT RETURN''
   = Inr \<lparr>usePaths = [\<lparr>path = ''a'', use_fields = Some [''constructor'']\<rparr>],
          queryBlocks = [\<lparr>name = ''q'', operations = [MostFrequentOperation]\<rparr>]\<rparr>"
  by code_simp

text \<open>
  C10. Every value of the map that \<^verbatim>\<open>execute\<close> returns should be a primitive (null, a
  boolean, a number or a string), as the declared type and the comment of \<^verbatim>\<open>execute\<close>
  say. It is not: on the data \<^verbatim>\<open>{a: {n: 1}}\<close> the path \<^verbatim>\<open>USE a.[constructor]\<close> picks the
  inherited property \<^verbatim>\<open>constructor\<close>, a function; MOST_FREQUENT returns that function,
  \<^verbatim>\<open>JSON.stringify\<close> of a function is \<^verbatim>\<open>undefined\<close>, and \<^verbatim>\<open>undefined\<close> is what the
  map holds for the query.
\<close>

theorem inherited_function_result:
  "query_execute demo_runtime ''USE a.[constructor] QUERY q MOST_FREQUENT RETURN''
       (VObj [(''a'', VObj [(''n'', VNum (Fin 1))])])
     = Inr [(''q'', VUndefined)]
   \<and> \<not> primitive_result VUndefined"
  by (simp add: query_execute_def parse_inherited exec_defs demo_runtime_def
        demo_inherited_def demo_refuses_assignment_def executeMostFrequent_def
        count_frequencies_def frequency_value_def most_frequent_entry_def)

subsection \<open>Errors abort the execution\<close>

















subsection \<open>USE paths with alternatives\<close>

lemma parse_scenario_d:
  "parseQuery ''USE y.[w1,w2].plays QUERY q COUNT SELECT * RETURN''
   = Inr \<lparr>usePaths = [\<lparr>path = ''y'', use_fields = Some [''w1'', ''w2'']\<rparr>],
          queryBlocks = [\<lparr>name = ''q'',
                          operations = [CountOperation (SelectOperation Star None None)]\<rparr>]\<rparr>"
  by code_simp

lemma field_keys:
  "array_index ''w1'' = None" "array_index ''w2'' = None" "array_index ''q'' = None"
  by code_simp+

text \<open>
  C1. For a USE path with an axis the result of a query should be a nested map keyed
  by the alternatives: for \<^verbatim>\<open>USE y.[w1,w2].plays\<close>, with two records under \<^verbatim>\<open>w1\<close> and
  three under \<^verbatim>\<open>w2\<close>, the query \<^verbatim>\<open>COUNT SELECT * RETURN\<close> should yield
  \<^verbatim>\<open>{w1: 2, w2: 3}\<close>. The engine returns the number 0 on this input: the parser reads
  \<^verbatim>\<open>[w1,w2]\<close> as the field list of the path \<^verbatim>\<open>y\<close>, and the SELECT inside COUNT selects
  nothing.
\<close>

theorem scenario_d_counts_nothing:
  "query_execute demo_runtime ''USE y.[w1,w2].plays QUERY q COUNT SELECT * RETURN'' scenario_d_data
     = Inr [(''q'', VNum (Fin 0))]"
  by (simp add: query_execute_def parse_scenario_d exec_defs scenario_d_data_def
        executeCount_zero set_own_def field_keys)

subsection \<open>SELECT * as the only operation\<close>






subsection \<open>Non-numeric elements in the numeric aggregates\<close>

lemma currentContext_working_on [simp]: "currentContext (working_on ctx cc) = cc"
  by (simp add: working_on_def)

lemma numbers_of_numeric:
  "filter (\<lambda>n. \<not> isNaN n) (map (to_number rt) vs) = map (to_number rt) (filter (numeric rt) vs)"
  by (induction vs) (auto simp: numeric_def)

lemma numeric_values_primitive:
  assumes "list_all is_primitive cc" and "cc \<noteq> []"
  shows "numeric_values rt msg cc = Inr (map (to_number rt) (filter (numeric rt) cc))"
proof -
  from assms have "is_primitive (cc ! 0)"
    by (cases cc) simp_all
  then show ?thesis
    by (simp only: numeric_values_def numbers_of_numeric if_True)
qed

lemma map_result_single_key:
  "map_result (\<lambda>item. property_of rt item k) (map (single_key k) vs) = Inr vs"
  by (induction vs) (auto simp: single_key_def)

lemma numeric_values_single_key:
  assumes "vs \<noteq> []"
  shows "numeric_values rt msg (map (single_key k) vs)
           = Inr (map (to_number rt) (filter (numeric rt) vs))"
proof -
  obtain v rest where vs: "vs = v # rest" using assms by (cases vs) auto
  have first: "map (single_key k) vs ! 0 = VObj [(k, v)]"
    by (simp add: vs single_key_def)
  show ?thesis
    unfolding numeric_values_def first
    by (simp add: map_result_single_key numbers_of_numeric)
qed

lemma same_numbers_primitive:
  assumes "list_all is_primitive cc"
  shows "same_numbers rt cc (filter (numeric rt) cc) (map (to_number rt) (filter (numeric rt) cc))"
proof -
  have "list_all is_primitive (filter (numeric rt) cc)"
    using assms by (simp add: list_all_iff)
  then show ?thesis
    using assms numeric_values_primitive [of "filter (numeric rt) cc" rt]
    by (simp add: same_numbers_def numeric_values_primitive)
qed

lemma same_numbers_single_key:
  "same_numbers rt (map (single_key k) vs) (map (single_key k) (filter (numeric rt) vs))
     (map (to_number rt) (filter (numeric rt) vs))"
  using numeric_values_single_key [of "filter (numeric rt) vs" rt _ k]
  by (simp add: same_numbers_def numeric_values_single_key)

lemma executeMin_same:
  "same_numbers rt cc cc' nums \<Longrightarrow>
   executeMin rt (working_on ctx cc) = executeMin rt (working_on ctx cc')"
  by (cases "cc = []"; cases "cc' = []") (auto simp: same_numbers_def executeMin_def)

lemma executeMax_same:
  "same_numbers rt cc cc' nums \<Longrightarrow>
   executeMax rt (working_on ctx cc) = executeMax rt (working_on ctx cc')"
  by (cases "cc = []"; cases "cc' = []") (auto simp: same_numbers_def executeMax_def)

lemma executeMedian_same:
  "same_numbers rt cc cc' nums \<Longrightarrow>
   executeMedian rt (working_on ctx cc) = executeMedian rt (working_on ctx cc')"
  by (cases "cc = []"; cases "cc' = []") (auto simp: same_numbers_def executeMedian_def)

lemma executeVariance_same:
  assumes "same_numbers rt cc cc' nums"
  shows "executeVariance rt (working_on ctx cc) = executeVariance rt (working_on ctx cc')"
proof (cases "length nums \<le> 1")
  case True
  then show ?thesis
    using assms by (cases "cc = []") (auto simp: same_numbers_def executeVariance_def)
next
  case False
  then have "cc \<noteq> []" "cc' \<noteq> []" "\<not> length cc \<le> 1" "\<not> length cc' \<le> 1"
    using assms by (auto simp: same_numbers_def)
  then show ?thesis
    using assms by (simp add: same_numbers_def executeVariance_def)
qed

lemma executeRange_same:
  "same_numbers rt cc cc' nums \<Longrightarrow>
   executeRange rt (working_on ctx cc) = executeRange rt (working_on ctx cc')"
  by (simp add: executeRange_def executeMin_same [of rt cc cc' nums]
        executeMax_same [of rt cc cc' nums])

text \<open>SUM adds 0 for an element that is not numeric.\<close>

lemma nan_to_zero_coerced:
  "nan_to_zero (to_number rt (zero_if_not_numeric rt v)) = nan_to_zero (to_number rt v)"
  by (simp add: zero_if_not_numeric_def numeric_def nan_to_zero_def to_number_def isNaN_def)

lemma sum_fold_coerced:
  "foldl (\<lambda>sum v. jadd sum (nan_to_zero (to_number rt v))) acc (map (zero_if_not_numeric rt) vs)
     = foldl (\<lambda>sum v. jadd sum (nan_to_zero (to_number rt v))) acc vs"
  by (induction vs arbitrary: acc) (simp_all add: nan_to_zero_coerced)

lemma is_primitive_coerced: "is_primitive v \<Longrightarrow> is_primitive (zero_if_not_numeric rt v)"
  by (simp add: zero_if_not_numeric_def)

lemma executeSum_primitive:
  assumes "list_all is_primitive cc"
  shows "executeSum rt (working_on ctx cc)
           = executeSum rt (working_on ctx (map (zero_if_not_numeric rt) cc))"
  using assms
  by (cases cc) (simp_all add: executeSum_def sum_fold_coerced is_primitive_coerced
        nan_to_zero_coerced)

lemma sum_reduce_single_key:
  "reduce_result
     (\<lambda>sum item. andThen (property_of rt item k)
        (\<lambda>v. Inr (jadd sum (nan_to_zero (to_number rt v)))))
     acc (map (single_key k) vs)
   = Inr (foldl (\<lambda>sum v. jadd sum (nan_to_zero (to_number rt v))) acc vs)"
  by (induction vs arbitrary: acc) (simp_all add: single_key_def)

lemma executeSum_single_key_value:
  "executeSum rt (working_on ctx (map (single_key k) vs))
     = Inr (foldl (\<lambda>sum v. jadd sum (nan_to_zero (to_number rt v))) (Fin 0) vs)"
proof (cases vs)
  case Nil
  then show ?thesis by (simp add: executeSum_def)
next
  case (Cons v rest)
  have first: "map (single_key k) vs ! 0 = VObj [(k, v)]"
    by (simp add: Cons single_key_def)
  have "map (single_key k) vs \<noteq> []" by (simp add: Cons)
  then show ?thesis
    unfolding executeSum_def
    by (simp add: first sum_reduce_single_key)
qed

lemma executeSum_single_key:
  "executeSum rt (working_on ctx (map (single_key k) vs))
     = executeSum rt (working_on ctx (map (single_key k) (map (zero_if_not_numeric rt) vs)))"
  by (simp only: executeSum_single_key_value sum_fold_coerced)

lemma executeAverage_primitive:
  assumes "list_all is_primitive cc"
  shows "executeAverage rt (working_on ctx cc)
           = executeAverage rt (working_on ctx (map (zero_if_not_numeric rt) cc))"
  using executeSum_primitive [OF assms, of rt ctx] by (simp add: executeAverage_def)

lemma executeAverage_single_key:
  "executeAverage rt (working_on ctx (map (single_key k) vs))
     = executeAverage rt (working_on ctx (map (single_key k) (map (zero_if_not_numeric rt) vs)))"
  using executeSum_single_key [of rt ctx k vs]
  by (simp add: executeAverage_def Let_def del: map_map)


text \<open>Without infinities among the inputs every result is a finite number.\<close>

lemma is_finite_iff: "is_finite n \<longleftrightarrow> (\<exists>r. n = Fin r)"
  by (cases n) auto

lemma finite_jadd: "is_finite a \<Longrightarrow> is_finite b \<Longrightarrow> is_finite (jadd a b)"
  by (auto simp: is_finite_iff)

lemma finite_jsub: "is_finite a \<Longrightarrow> is_finite b \<Longrightarrow> is_finite (jsub a b)"
  by (auto simp: is_finite_iff jsub_def)

lemma finite_jmul: "is_finite a \<Longrightarrow> is_finite b \<Longrightarrow> is_finite (jmul a b)"
  by (auto simp: is_finite_iff)

lemma finite_jdiv: "is_finite a \<Longrightarrow> r \<noteq> 0 \<Longrightarrow> is_finite (jdiv a (Fin r))"
  by (auto simp: is_finite_iff)

lemma finite_cases: "n \<noteq> NaN \<Longrightarrow> n \<noteq> PInf \<Longrightarrow> n \<noteq> NInf \<Longrightarrow> is_finite n"
  by (cases n) simp_all

lemma finite_numbers:
  "list_all (no_infinity rt) vs \<Longrightarrow>
   list_all is_finite (map (to_number rt) (filter (numeric rt) vs))"
  by (induction vs) (simp_all add: no_infinity_def numeric_def isNaN_def finite_cases)

lemma finite_summand:
  "no_infinity rt v \<Longrightarrow> is_finite (nan_to_zero (to_number rt v))"
  by (cases "to_number rt v") (auto simp: no_infinity_def nan_to_zero_def isNaN_def)

lemma finite_sum_fold:
  "list_all (no_infinity rt) vs \<Longrightarrow> is_finite acc \<Longrightarrow>
   is_finite (foldl (\<lambda>sum v. jadd sum (nan_to_zero (to_number rt v))) acc vs)"
  by (induction vs arbitrary: acc) (auto simp: finite_jadd finite_summand)

lemma finite_foldl_jadd:
  "list_all is_finite nums \<Longrightarrow> is_finite acc \<Longrightarrow> is_finite (foldl jadd acc nums)"
  by (induction nums arbitrary: acc) (auto simp: finite_jadd)

lemma finite_squares_fold:
  "list_all is_finite nums \<Longrightarrow> is_finite acc \<Longrightarrow> is_finite mean \<Longrightarrow>
   is_finite (foldl (\<lambda>sum v. jadd sum (jmul (jsub v mean) (jsub v mean))) acc nums)"
  by (induction nums arbitrary: acc) (auto simp: finite_jadd finite_jmul finite_jsub)

lemma finite_foldl_jmin2:
  "list_all is_finite nums \<Longrightarrow> is_finite acc \<Longrightarrow> is_finite (foldl jmin2 acc nums)"
  by (induction nums arbitrary: acc) (auto simp: jmin2_def is_finite_iff)

lemma finite_foldl_jmax2:
  "list_all is_finite nums \<Longrightarrow> is_finite acc \<Longrightarrow> is_finite (foldl jmax2 acc nums)"
  by (induction nums arbitrary: acc) (auto simp: jmax2_def is_finite_iff)

lemma finite_math_min:
  assumes fin: "list_all is_finite nums" and "nums \<noteq> []"
  shows "is_finite (math_min nums)"
proof (cases nums)
  case Nil
  then show ?thesis using assms by simp
next
  case (Cons x rest)
  then have "jmin2 PInf x = x" "is_finite x"
    using fin by (cases x; simp add: jmin2_def)+
  then show ?thesis
    using fin by (simp add: math_min_def Cons finite_foldl_jmin2)
qed

lemma finite_math_max:
  assumes fin: "list_all is_finite nums" and "nums \<noteq> []"
  shows "is_finite (math_max nums)"
proof (cases nums)
  case Nil
  then show ?thesis using assms by simp
next
  case (Cons x rest)
  then have "jmax2 NInf x = x" "is_finite x"
    using fin by (cases x; simp add: jmax2_def)+
  then show ?thesis
    using fin by (simp add: math_max_def Cons finite_foldl_jmax2)
qed

lemma set_sort_insert: "set (sort_insert x xs) = insert x (set xs)"
  by (induction xs) auto

lemma length_sort_insert: "length (sort_insert x xs) = Suc (length xs)"
  by (induction xs) auto

lemma sort_numbers_fold:
  "set (foldl (\<lambda>acc x. sort_insert x acc) acc xs) = set acc \<union> set xs
   \<and> length (foldl (\<lambda>acc x. sort_insert x acc) acc xs) = length acc + length xs"
  by (induction xs arbitrary: acc) (auto simp: set_sort_insert length_sort_insert)

lemma set_sort_numbers: "set (sort_numbers xs) = set xs"
  and length_sort_numbers: "length (sort_numbers xs) = length xs"
  using sort_numbers_fold [of "[]" xs] by (simp_all add: sort_numbers_def)

lemma finite_sorted_nth:
  "list_all is_finite nums \<Longrightarrow> i < length nums \<Longrightarrow> is_finite (sort_numbers nums ! i)"
proof -
  assume fin: "list_all is_finite nums" and i: "i < length nums"
  have "sort_numbers nums ! i \<in> set (sort_numbers nums)"
    using i by (intro nth_mem) (simp add: length_sort_numbers)
  then show ?thesis
    using fin by (simp add: list_all_iff set_sort_numbers)
qed


lemma executeMin_finite:
  assumes "same_numbers rt cc cc' nums" and "list_all is_finite nums"
  shows "finite_result (executeMin rt (working_on ctx cc))"
  using assms
  by (cases "cc = []") (auto simp: same_numbers_def executeMin_def finite_result_def finite_math_min)

lemma executeMax_finite:
  assumes "same_numbers rt cc cc' nums" and "list_all is_finite nums"
  shows "finite_result (executeMax rt (working_on ctx cc))"
  using assms
  by (cases "cc = []") (auto simp: same_numbers_def executeMax_def finite_result_def finite_math_max)

lemma executeRange_finite:
  assumes "same_numbers rt cc cc' nums" and "list_all is_finite nums"
  shows "finite_result (executeRange rt (working_on ctx cc))"
  using executeMin_finite [OF assms, of ctx] executeMax_finite [OF assms, of ctx]
  by (auto simp: executeRange_def finite_result_def finite_jsub split: sum.splits)

lemma executeMedian_finite:
  assumes "same_numbers rt cc cc' nums" and fin: "list_all is_finite nums"
  shows "finite_result (executeMedian rt (working_on ctx cc))"
proof (cases "cc = [] \<or> nums = []")
  case True
  then show ?thesis
    using assms by (cases "cc = []") (auto simp: same_numbers_def executeMedian_def finite_result_def)
next
  case False
  then have nv: "numeric_values rt msg cc = Inr nums" for msg
    using assms by (simp add: same_numbers_def)
  have n: "0 < length nums" using False by simp
  then have mid: "length nums div 2 < length nums" "length nums div 2 - 1 < length nums"
    by arith+
  have "is_finite (sort_numbers nums ! (length nums div 2))"
    "is_finite (sort_numbers nums ! (length nums div 2 - 1))"
    using fin mid by (simp_all add: finite_sorted_nth)
  then show ?thesis
    using False
    by (simp add: executeMedian_def nv finite_result_def Let_def length_sort_numbers
          finite_jadd finite_jdiv)
qed

lemma executeVariance_finite:
  assumes "same_numbers rt cc cc' nums" and fin: "list_all is_finite nums"
  shows "finite_result (executeVariance rt (working_on ctx cc))"
proof (cases "length cc \<le> 1 \<or> length nums \<le> 1")
  case True
  then show ?thesis
    using assms
    by (cases "cc = []") (auto simp: same_numbers_def executeVariance_def finite_result_def)
next
  case False
  then have "cc \<noteq> []" by auto
  then have nv: "numeric_values rt msg cc = Inr nums" for msg
    using assms by (simp add: same_numbers_def)
  have "2 \<le> length nums" using False by arith
  then have len: "real (length nums) \<noteq> 0" "real (length nums - 1) \<noteq> 0"
    by auto
  have mean: "is_finite (jdiv (foldl jadd (Fin 0) nums) (Fin (real (length nums))))"
    using fin len by (simp add: finite_jdiv finite_foldl_jadd)
  show ?thesis
    using False fin len mean
    by (simp add: executeVariance_def nv finite_result_def Let_def finite_jdiv
          finite_squares_fold)
qed

lemma executeSum_finite_primitive:
  assumes "list_all is_primitive cc" and "list_all (no_infinity rt) cc"
  shows "finite_result (executeSum rt (working_on ctx cc))"
  using assms
  by (cases cc) (simp_all add: executeSum_def finite_result_def finite_sum_fold finite_jadd
        finite_summand)

lemma executeSum_finite_single_key:
  assumes "list_all (no_infinity rt) vs"
  shows "finite_result (executeSum rt (working_on ctx (map (single_key k) vs)))"
  using assms by (simp add: executeSum_single_key_value finite_result_def finite_sum_fold)

lemma executeAverage_finite:
  assumes "finite_result (executeSum rt (working_on ctx cc))"
  shows "finite_result (executeAverage rt (working_on ctx cc))"
  using assms
  by (cases "cc = []") (auto simp: executeAverage_def finite_result_def finite_jdiv
        split: sum.splits)


text \<open>
  C5, as amended. Take a working set of scalars, or of single-key projections with one
  common key. SUM and AVERAGE treat every element that is not numeric as 0: their
  result is that of the working set with those elements replaced by 0. MEDIAN, MIN,
  MAX, VARIANCE and RANGE leave such elements out: their result is that of the working
  set without them (0 when too few remain). When no element converts to an infinity,
  all seven return a finite number, so none of them yields \<^verbatim>\<open>NaN\<close>.
\<close>

theorem non_numeric_elements:
  fixes rt :: runtime and vs :: "jsvalue list" and shape :: "jsvalue \<Rightarrow> jsvalue"
  assumes "(shape = (\<lambda>v. v) \<and> list_all is_primitive vs) \<or> shape = single_key k"
  defines "cc \<equiv> map shape vs"
    and "zeroed \<equiv> map shape (map (zero_if_not_numeric rt) vs)"
    and "kept \<equiv> map shape (filter (numeric rt) vs)"
  shows "executeSum rt (working_on ctx cc) = executeSum rt (working_on ctx zeroed)
       \<and> executeAverage rt (working_on ctx cc) = executeAverage rt (working_on ctx zeroed)
       \<and> executeMedian rt (working_on ctx cc) = executeMedian rt (working_on ctx kept)
       \<and> executeMin rt (working_on ctx cc) = executeMin rt (working_on ctx kept)
       \<and> executeMax rt (working_on ctx cc) = executeMax rt (working_on ctx kept)
       \<and> executeVariance rt (working_on ctx cc) = executeVariance rt (working_on ctx kept)
       \<and> executeRange rt (working_on ctx cc) = executeRange rt (working_on ctx kept)
       \<and> (list_all (no_infinity rt) vs \<longrightarrow>
            finite_result (executeSum rt (working_on ctx cc))
          \<and> finite_result (executeAverage rt (working_on ctx cc))
          \<and> finite_result (executeMedian rt (working_on ctx cc))
          \<and> finite_result (executeMin rt (working_on ctx cc))
          \<and> finite_result (executeMax rt (working_on ctx cc))
          \<and> finite_result (executeVariance rt (working_on ctx cc))
          \<and> finite_result (executeRange rt (working_on ctx cc)))"
proof -
  let ?nums = "map (to_number rt) (filter (numeric rt) vs)"
  have same: "same_numbers rt cc kept ?nums"
    using assms(1) same_numbers_primitive [of vs rt] same_numbers_single_key [of rt k vs]
    by (auto simp: cc_def kept_def)
  have sums: "executeSum rt (working_on ctx cc) = executeSum rt (working_on ctx zeroed)"
    "executeAverage rt (working_on ctx cc) = executeAverage rt (working_on ctx zeroed)"
    using assms(1) executeSum_primitive [of vs rt ctx] executeSum_single_key [of rt ctx k vs]
      executeAverage_primitive [of vs rt ctx] executeAverage_single_key [of rt ctx k vs]
    by (auto simp: cc_def zeroed_def simp del: map_map)
  have finite: "finite_result (executeSum rt (working_on ctx cc))
          \<and> finite_result (executeAverage rt (working_on ctx cc))
          \<and> finite_result (executeMedian rt (working_on ctx cc))
          \<and> finite_result (executeMin rt (working_on ctx cc))
          \<and> finite_result (executeMax rt (working_on ctx cc))
          \<and> finite_result (executeVariance rt (working_on ctx cc))
          \<and> finite_result (executeRange rt (working_on ctx cc))"
    if inputs: "list_all (no_infinity rt) vs"
  proof -
    have nums: "list_all is_finite ?nums"
      using inputs by (rule finite_numbers)
    have sum: "finite_result (executeSum rt (working_on ctx cc))"
      using assms(1) inputs executeSum_finite_primitive [of vs rt ctx]
        executeSum_finite_single_key [of rt vs ctx k]
      by (auto simp: cc_def)
    show ?thesis
      using sum executeAverage_finite [OF sum] executeMedian_finite [OF same nums]
        executeMin_finite [OF same nums] executeMax_finite [OF same nums]
        executeVariance_finite [OF same nums] executeRange_finite [OF same nums]
      by blast
  qed
  show ?thesis
    using sums finite executeMedian_same [OF same] executeMin_same [OF same]
      executeMax_same [OF same] executeVariance_same [OF same] executeRange_same [OF same]
    by blast
qed

text \<open>MIN over the working set \<^verbatim>\<open>["x", 5]\<close> is 5; with \<^verbatim>\<open>"x"\<close> coerced to 0 it would
  be 0.\<close>

lemma demo_number_of_x: "string_to_num demo_runtime ''x'' = NaN"
  unfolding demo_runtime_def by simp code_simp

theorem min_counterexample:
  "executeMin demo_runtime (working_on (demo_context [] []) [VStr ''x'', VNum (Fin 5)]) = Inr (Fin 5)
   \<and> executeMin demo_runtime (working_on (demo_context [] [])
         (map (zero_if_not_numeric demo_runtime) [VStr ''x'', VNum (Fin 5)])) = Inr (Fin 0)"
  by (simp add: executeMin_def numeric_values_def demo_number_of_x isNaN_def math_min_def
        jmin2_def to_number_def zero_if_not_numeric_def numeric_def)

theorem non_numeric_elements_witness:
  "executeMin demo_runtime (working_on (demo_context [] []) [VStr ''x'', VNum (Fin 5)])
     = executeMin demo_runtime (working_on (demo_context [] []) [VNum (Fin 5)])
   \<and> finite_result (executeMin demo_runtime
         (working_on (demo_context [] []) [VStr ''x'', VNum (Fin 5)]))"
proof -
  have shape: "((\<lambda>v. v) = (\<lambda>v::jsvalue. v) \<and> list_all is_primitive [VStr ''x'', VNum (Fin 5)])
      \<or> (\<lambda>v. v) = single_key ''k''"
    by simp
  have inputs: "list_all (no_infinity demo_runtime) [VStr ''x'', VNum (Fin 5)]"
    by (simp add: no_infinity_def demo_number_of_x to_number_def)
  have kept: "filter (numeric demo_runtime) [VStr ''x'', VNum (Fin 5)] = [VNum (Fin 5)]"
    by (simp add: numeric_def demo_number_of_x isNaN_def to_number_def)
  show ?thesis
    using non_numeric_elements [OF shape, of demo_runtime "demo_context [] []"] inputs kept
    by auto
qed

subsection \<open>Frequencies\<close>

lemma show_nat_0: "show_nat 0 = ''0''"
  by code_simp

lemma frequency_value_sole:
  "countable item \<Longrightarrow> frequency_value rt msg item = Inr (sole_value item)"
proof (cases item)
  case (VList xs)
  assume "countable item"
  then obtain x where "xs = [x]"
    by (cases xs) (auto simp: countable_def VList)
  then show ?thesis
    by (simp add: VList frequency_value_def element_at_def show_nat_0)
next
  case (VObj kvs)
  assume "countable item"
  then obtain k v where "kvs = [(k, v)]"
    by (cases kvs) (auto simp: countable_def VObj)
  then show ?thesis
    by (simp add: VObj frequency_value_def)
next
  case (VDerived p kvs)
  assume "countable item"
  then obtain k v where "kvs = [(k, v)]"
    by (cases kvs) (auto simp: countable_def VDerived)
  then show ?thesis
    by (simp add: VDerived frequency_value_def)
next
  case (VBuiltin kind n)
  assume "countable item"
  then show ?thesis
    by (simp add: VBuiltin frequency_value_def countable_def)
qed (simp_all add: frequency_value_def)

lemma count_frequencies_tally_from:
  "list_all countable cc \<Longrightarrow>
   reduce_result
     (\<lambda>freqs item. andThen (frequency_value rt msg item)
        (\<lambda>v. if v = VNull \<or> v = VUndefined then Inr freqs
             else Inr (count_value (to_string rt v) v freqs)))
     freqs cc
   = Inr (tally rt freqs (counted_values cc))"
  by (induction cc arbitrary: freqs)
     (auto simp: tally_def counted_values_def frequency_value_sole)

lemma count_frequencies_tally:
  "list_all countable cc \<Longrightarrow>
   count_frequencies rt msg cc = Inr (tally rt [] (counted_values cc))"
  unfolding count_frequencies_def by (rule count_frequencies_tally_from)


lemma group_count_key: "group_count rt vals v = key_count rt vals (to_string rt v)"
  by (simp add: group_count_def key_count_def)

lemma count_value_new:
  "key \<notin> fst ` set freqs \<Longrightarrow> count_value key v freqs = freqs @ [(key, 1, v)]"
  by (induction freqs) auto

lemma count_value_old:
  "distinct (map fst freqs) \<Longrightarrow> key \<in> fst ` set freqs \<Longrightarrow>
   count_value key v freqs = map (\<lambda>(k, c, w). (k, if k = key then c + 1 else c, w)) freqs"
proof (induction freqs)
  case Nil
  then show ?case by simp
next
  case (Cons e freqs)
  obtain k c w where e: "e = (k, c, w)" by (cases e) auto
  show ?case
  proof (cases "k = key")
    case True
    then have "key \<notin> fst ` set freqs" using Cons.prems(1) by (auto simp: e)
    then have "map (\<lambda>(k, c, w). (k, if k = key then c + 1 else c, w)) freqs = freqs"
      by (intro map_idI) (auto simp: rev_image_eqI)
    then show ?thesis using True by (simp add: e)
  next
    case False
    then show ?thesis using Cons by (auto simp: e)
  qed
qed

lemma bump_then_count:
  "map (\<lambda>(k, c, w). (k, c + key_count rt vs k, w))
     (map (\<lambda>(k, c, w). (k, if k = to_string rt v then c + 1 else c, w)) freqs)
   = map (\<lambda>(k, c, w). (k, c + key_count rt (v # vs) k, w)) freqs"
  by (induction freqs) (auto simp: key_count_def)

lemma tally_groups_from:
  "distinct (map fst freqs) \<Longrightarrow>
   tally rt freqs vs
     = map (\<lambda>(k, c, w). (k, c + key_count rt vs k, w)) freqs
       @ groups rt (filter (\<lambda>u. to_string rt u \<notin> fst ` set freqs) vs)"
proof (induction vs arbitrary: freqs)
  case Nil
  then show ?case by (simp add: tally_def key_count_def)
next
  case (Cons v vs)
  let ?k = "to_string rt v"
  have step: "tally rt freqs (v # vs) = tally rt (count_value ?k v freqs) vs"
    by (simp add: tally_def)
  show ?case
  proof (cases "?k \<in> fst ` set freqs")
    case True
    let ?freqs' = "map (\<lambda>(k, c, w). (k, if k = ?k then c + 1 else c, w)) freqs"
    have cv: "count_value ?k v freqs = ?freqs'"
      using Cons.prems True by (rule count_value_old)
    have keys: "map fst ?freqs' = map fst freqs"
      by (induction freqs) auto
    then have keyset: "fst ` set ?freqs' = fst ` set freqs"
      by (metis list.set_map)
    have "distinct (map fst ?freqs')" using Cons.prems by (simp only: keys)
    then have ih: "tally rt ?freqs' vs
        = map (\<lambda>(k, c, w). (k, c + key_count rt vs k, w)) ?freqs'
          @ groups rt (filter (\<lambda>u. to_string rt u \<notin> fst ` set ?freqs') vs)"
      by (rule Cons.IH)
    have fl: "filter (\<lambda>u. to_string rt u \<notin> fst ` set ?freqs') vs
        = filter (\<lambda>u. to_string rt u \<notin> fst ` set freqs) (v # vs)"
      using True by (simp only: keyset) simp
    show ?thesis
      by (simp only: step cv ih fl bump_then_count)
  next
    case False
    have cv: "count_value ?k v freqs = freqs @ [(?k, 1, v)]"
      using False by (rule count_value_new)
    have d: "distinct (map fst (freqs @ [(?k, 1, v)]))"
      using Cons.prems False by (auto simp: image_iff)
    have same: "key_count rt (v # vs) k = key_count rt vs k" if "k \<in> fst ` set freqs" for k
      using that False by (auto simp: key_count_def)
    have m: "map (\<lambda>(k, c, w). (k, c + key_count rt (v # vs) k, w)) freqs
           = map (\<lambda>(k, c, w). (k, c + key_count rt vs k, w)) freqs"
      by (rule map_cong) (auto simp: same rev_image_eqI)
    have g: "group_count rt (filter (\<lambda>u. to_string rt u \<notin> fst ` set freqs) vs) v
           = key_count rt vs ?k"
      using False
      by (simp add: group_count_def key_count_def) (metis (mono_tags, lifting) filter_cong)
    have f: "filter (\<lambda>u. to_string rt u \<noteq> ?k)
               (filter (\<lambda>u. to_string rt u \<notin> fst ` set freqs) vs)
           = filter (\<lambda>u. to_string rt u \<notin> fst ` set (freqs @ [(?k, 1, v)])) vs"
      by (auto intro: filter_cong)
    from Cons.IH [OF d] show ?thesis
      using False by (simp add: step cv m g conj_commute)
  qed
qed

lemma tally_groups: "tally rt [] vals = groups rt vals"
  using tally_groups_from [of "[]" rt vals] by simp


text \<open>The scans of the frequency table.\<close>

lemma entry_with_Cons [simp]:
  "entry_with n ((k, c, w) # es) = (if c = n then Some w else entry_with n es)"
  by (simp add: entry_with_def)

lemma entry_with_Nil [simp]: "entry_with n [] = None"
  by (simp add: entry_with_def)

lemma top_count_ge: "m \<le> top_count m es"
proof (induction es arbitrary: m)
  case Nil
  then show ?case by simp
next
  case (Cons e es)
  obtain k c w where e: "e = (k, c, w)" by (cases e) auto
  show ?case using Cons [of "max m c"] by (simp add: e)
qed

lemma top_count_bound: "(k, c, w) \<in> set es \<Longrightarrow> c \<le> top_count m es"
proof (induction es arbitrary: m)
  case Nil
  then show ?case by simp
next
  case (Cons e es)
  obtain k' c' w' where e: "e = (k', c', w')" by (cases e) auto
  show ?case
    using Cons top_count_ge [of "max m c'" es] by (auto simp: e)
qed

lemma top_count_attained:
  "top_count m es \<noteq> m \<Longrightarrow> \<exists>w. entry_with (top_count m es) es = Some w"
proof (induction es arbitrary: m)
  case Nil
  then show ?case by simp
next
  case (Cons e es)
  obtain k c w where e: "e = (k, c, w)" by (cases e) auto
  show ?case
  proof (cases "top_count (max m c) es = max m c")
    case True
    then show ?thesis using Cons.prems by (auto simp: e max_def split: if_splits)
  next
    case False
    then show ?thesis using Cons.IH [of "max m c"] by (auto simp: e)
  qed
qed

lemma scan_most:
  "foldl (\<lambda>(maxCount, mostFrequent) (k, c, v).
            if c > maxCount then (c, v) else (maxCount, mostFrequent)) (m, r) es
   = (top_count m es,
      if top_count m es = m then r
      else (case entry_with (top_count m es) es of Some w \<Rightarrow> w | None \<Rightarrow> r))"
proof (induction es arbitrary: m r)
  case Nil
  then show ?case by simp
next
  case (Cons e es)
  obtain k c w where e: "e = (k, c, w)" by (cases e) auto
  show ?case
  proof (cases "c > m")
    case True
    then have mx: "max m c = c" by simp
    have ge: "c \<le> top_count c es" by (rule top_count_ge)
    show ?thesis
    proof (cases "top_count c es = c")
      case same: True
      then show ?thesis using True by (simp add: e Cons.IH mx)
    next
      case False
      then obtain w' where "entry_with (top_count c es) es = Some w'"
        using top_count_attained by blast
      then show ?thesis using True False ge by (simp add: e Cons.IH mx)
    qed
  next
    case False
    then have mx: "max m c = m" by simp
    have ge: "m \<le> top_count m es" by (rule top_count_ge)
    show ?thesis using False ge by (auto simp: e Cons.IH mx)
  qed
qed

lemma bottom_count_le: "bottom_count m es \<le> m"
proof (induction es arbitrary: m)
  case Nil
  then show ?case by simp
next
  case (Cons e es)
  obtain k c w where e: "e = (k, c, w)" by (cases e) auto
  show ?case using Cons [of "min m c"] by (simp add: e)
qed

lemma bottom_count_bound: "(k, c, w) \<in> set es \<Longrightarrow> bottom_count m es \<le> c"
proof (induction es arbitrary: m)
  case Nil
  then show ?case by simp
next
  case (Cons e es)
  obtain k' c' w' where e: "e = (k', c', w')" by (cases e) auto
  show ?case
    using Cons bottom_count_le [of "min m c'" es] by (auto simp: e)
qed

lemma bottom_count_attained:
  "bottom_count m es \<noteq> m \<Longrightarrow> \<exists>w. entry_with (bottom_count m es) es = Some w"
proof (induction es arbitrary: m)
  case Nil
  then show ?case by simp
next
  case (Cons e es)
  obtain k c w where e: "e = (k, c, w)" by (cases e) auto
  show ?case
  proof (cases "bottom_count (min m c) es = min m c")
    case True
    then show ?thesis using Cons.prems by (auto simp: e min_def split: if_splits)
  next
    case False
    then show ?thesis using Cons.IH [of "min m c"] by (auto simp: e)
  qed
qed

lemma scan_least:
  "foldl (\<lambda>(minCount, leastFrequent) (k, c, v).
            if (case minCount of None \<Rightarrow> True | Some m \<Rightarrow> c < m) then (Some c, v)
            else (minCount, leastFrequent)) (Some m, r) es
   = (Some (bottom_count m es),
      if bottom_count m es = m then r
      else (case entry_with (bottom_count m es) es of Some w \<Rightarrow> w | None \<Rightarrow> r))"
proof (induction es arbitrary: m r)
  case Nil
  then show ?case by simp
next
  case (Cons e es)
  obtain k c w where e: "e = (k, c, w)" by (cases e) auto
  show ?case
  proof (cases "c < m")
    case True
    then have mn: "min m c = c" by simp
    have le: "bottom_count c es \<le> c" by (rule bottom_count_le)
    show ?thesis
    proof (cases "bottom_count c es = c")
      case same: True
      then show ?thesis using True by (simp add: e Cons.IH mn)
    next
      case False
      then obtain w' where "entry_with (bottom_count c es) es = Some w'"
        using bottom_count_attained by blast
      then show ?thesis using True False le by (simp add: e Cons.IH mn)
    qed
  next
    case False
    then have mn: "min m c = m" by simp
    have le: "bottom_count m es \<le> m" by (rule bottom_count_le)
    show ?thesis using False le by (auto simp: e Cons.IH mn)
  qed
qed

text \<open>The entry either scan settles on, for a table that is not empty.\<close>

lemma most_frequent_entry_first:
  assumes "es \<noteq> []" and "\<forall>(k, c, w) \<in> set es. 0 < c"
  shows "entry_with (top_count 0 es) es = Some (most_frequent_entry es)"
proof -
  obtain k c w where "(k, c, w) \<in> set es"
    using assms(1) by (cases es) auto
  then have "0 < top_count 0 es"
    using assms(2) top_count_bound [of k c w es 0] by auto
  then show ?thesis
    using top_count_attained [of 0 es]
    by (auto simp: most_frequent_entry_def scan_most)
qed

lemma least_frequent_entry_first:
  "entry_with (bottom_count c es) ((k, c, w) # es) = Some (least_frequent_entry ((k, c, w) # es))"
  using bottom_count_attained [of c es] bottom_count_le [of c es]
  by (auto simp: least_frequent_entry_def scan_least)


text \<open>The groups of a list of values and the group counts of its members.\<close>

lemma group_count_Cons:
  "group_count rt (v # vs) u
     = (if to_string rt v = to_string rt u then Suc (group_count rt vs u) else group_count rt vs u)"
  by (simp add: group_count_def)

lemma group_count_others:
  "to_string rt u \<noteq> to_string rt v \<Longrightarrow>
   group_count rt (filter (\<lambda>x. to_string rt x \<noteq> to_string rt v) vs) u = group_count rt vs u"
  unfolding group_count_def
  by (simp add: conj_commute) (metis (mono_tags, lifting) filter_cong)

lemma find_Some_member: "find P xs = Some x \<Longrightarrow> P x \<and> x \<in> set xs"
  by (induction xs) (auto split: if_splits)

lemma find_filter:
  "(\<And>x. x \<in> set xs \<Longrightarrow> P x \<Longrightarrow> Q x) \<Longrightarrow> find P (filter Q xs) = find P xs"
  by (induction xs) auto

lemma entry_with_groups:
  "entry_with n (groups rt vals) = find (\<lambda>v. group_count rt vals v = n) vals"
proof (induction rt vals rule: groups.induct)
  case (1 rt)
  then show ?case by simp
next
  case (2 rt v vs)
  let ?rest = "filter (\<lambda>u. to_string rt u \<noteq> to_string rt v) vs"
  show ?case
  proof (cases "Suc (group_count rt vs v) = n")
    case True
    then show ?thesis by (simp add: group_count_Cons)
  next
    case False
    have "find (\<lambda>u. group_count rt (v # vs) u = n) vs
        = find (\<lambda>u. group_count rt (v # vs) u = n) ?rest"
      using False by (intro find_filter [symmetric]) (auto simp: group_count_Cons group_count_def)
    also have "\<dots> = find (\<lambda>u. group_count rt ?rest u = n) ?rest"
      by (intro find_cong) (auto simp: group_count_Cons group_count_others)
    finally show ?thesis
      using False 2 by (simp add: group_count_Cons)
  qed
qed

lemma groups_counts:
  "(k, c, w) \<in> set (groups rt vals) \<Longrightarrow> c = group_count rt vals w \<and> w \<in> set vals"
proof (induction rt vals rule: groups.induct)
  case (1 rt)
  then show ?case by simp
next
  case (2 rt v vs)
  show ?case
  proof (cases "(k, c, w) = (to_string rt v, Suc (group_count rt vs v), v)")
    case True
    then show ?thesis by (simp add: group_count_Cons)
  next
    case False
    then have "(k, c, w) \<in> set (groups rt (filter (\<lambda>u. to_string rt u \<noteq> to_string rt v) vs))"
      using "2.prems" by auto
    from "2.IH" [OF this] show ?thesis
      by (auto simp: group_count_Cons group_count_others)
  qed
qed

lemma groups_covers:
  "v \<in> set vals \<Longrightarrow> \<exists>k w. (k, group_count rt vals v, w) \<in> set (groups rt vals)"
proof (induction rt vals rule: groups.induct)
  case (1 rt)
  then show ?case by simp
next
  case (2 rt u vs)
  show ?case
  proof (cases "to_string rt u = to_string rt v")
    case True
    then have "group_count rt (u # vs) v = Suc (group_count rt vs u)"
      by (simp add: group_count_def)
    then show ?thesis by auto
  next
    case False
    then have "v \<in> set (filter (\<lambda>x. to_string rt x \<noteq> to_string rt u) vs)"
      using "2.prems" by auto
    from "2.IH" [OF this] show ?thesis
      using False by (auto simp: group_count_Cons group_count_others)
  qed
qed

lemma groups_positive: "\<forall>(k, c, w) \<in> set (groups rt vals). 0 < c"
proof (induction rt vals rule: groups.induct)
  case (1 rt)
  then show ?case by simp
next
  case (2 rt v vs)
  then show ?case by auto
qed

lemma groups_empty: "groups rt vals = [] \<longleftrightarrow> vals = []"
  by (cases vals) auto

text \<open>A member has a maximal group count exactly when its count is the top count of
  the table, and a minimal one exactly when it is the bottom count.\<close>

lemma maximal_iff_top:
  assumes "v \<in> set vals"
  shows "list_all (\<lambda>w. group_count rt vals w \<le> group_count rt vals v) vals
         \<longleftrightarrow> group_count rt vals v = top_count 0 (groups rt vals)"
proof -
  let ?T = "top_count 0 (groups rt vals)"
  have upper: "group_count rt vals u \<le> ?T" if "u \<in> set vals" for u
    using groups_covers [OF that, of rt] top_count_bound by blast
  have "groups rt vals \<noteq> []" using assms by (auto simp: groups_empty)
  then have "entry_with ?T (groups rt vals) = Some (most_frequent_entry (groups rt vals))"
    using groups_positive by (rule most_frequent_entry_first)
  then have "find (\<lambda>v. group_count rt vals v = ?T) vals
               = Some (most_frequent_entry (groups rt vals))"
    by (simp only: entry_with_groups)
  from find_Some_member [OF this]
  obtain u where u: "u \<in> set vals" "group_count rt vals u = ?T"
    by blast
  show ?thesis
  proof
    assume "list_all (\<lambda>w. group_count rt vals w \<le> group_count rt vals v) vals"
    then have "?T \<le> group_count rt vals v" using u by (auto simp: list_all_iff)
    then show "group_count rt vals v = ?T" using upper [OF assms] by simp
  next
    assume "group_count rt vals v = ?T"
    then show "list_all (\<lambda>w. group_count rt vals w \<le> group_count rt vals v) vals"
      using upper by (simp add: list_all_iff)
  qed
qed

lemma minimal_iff_bottom:
  assumes "v \<in> set (x # xs)"
  shows "list_all (\<lambda>w. group_count rt (x # xs) v \<le> group_count rt (x # xs) w) (x # xs)
         \<longleftrightarrow> group_count rt (x # xs) v
               = bottom_count (Suc (group_count rt xs x))
                   (groups rt (filter (\<lambda>u. to_string rt u \<noteq> to_string rt x) xs))"
proof -
  let ?vals = "x # xs"
  let ?rest = "groups rt (filter (\<lambda>u. to_string rt u \<noteq> to_string rt x) xs)"
  let ?c = "Suc (group_count rt xs x)"
  let ?B = "bottom_count ?c ?rest"
  have g: "groups rt ?vals = (to_string rt x, ?c, x) # ?rest" by simp
  have lower: "?B \<le> group_count rt ?vals u" if mem: "u \<in> set ?vals" for u
  proof -
    obtain k w where "(k, group_count rt ?vals u, w) \<in> set (groups rt ?vals)"
      using groups_covers [OF mem] by blast
    then show ?thesis
      using bottom_count_le [of ?c ?rest] bottom_count_bound [of k _ w ?rest ?c]
      by (auto simp del: groups.simps simp: g)
  qed
  have "entry_with ?B (groups rt ?vals) = Some (least_frequent_entry (groups rt ?vals))"
    unfolding g by (rule least_frequent_entry_first)
  then have "find (\<lambda>v. group_count rt ?vals v = ?B) ?vals
               = Some (least_frequent_entry (groups rt ?vals))"
    by (simp only: entry_with_groups)
  from find_Some_member [OF this]
  obtain u where u: "u \<in> set ?vals" "group_count rt ?vals u = ?B"
    by blast
  show ?thesis
  proof
    assume "list_all (\<lambda>w. group_count rt ?vals v \<le> group_count rt ?vals w) ?vals"
    then have "group_count rt ?vals v \<le> ?B" using u by (auto simp: list_all_iff)
    then show "group_count rt ?vals v = ?B" using lower [OF assms] by simp
  next
    assume "group_count rt ?vals v = ?B"
    then show "list_all (\<lambda>w. group_count rt ?vals v \<le> group_count rt ?vals w) ?vals"
      using lower by (simp add: list_all_iff)
  qed
qed


text \<open>
  C7, as amended. For every working set of scalars or single-key projections,
  occurrences are counted per text of the value: values with the same \<^verbatim>\<open>String\<close> form
  are one group. MOST_FREQUENT returns the first-seen value whose group count is
  maximal, LEAST_FREQUENT the first-seen value whose group count is minimal; \<^verbatim>\<open>null\<close>
  and \<^verbatim>\<open>undefined\<close> values are not counted, and both return \<^verbatim>\<open>null\<close> when nothing is
  counted.
\<close>

theorem frequent_values:
  assumes "list_all countable cc"
  shows "executeMostFrequent rt (working_on ctx cc)
           = Inr (first_most_frequent rt (counted_values cc))
       \<and> executeLeastFrequent rt (working_on ctx cc)
           = Inr (first_least_frequent rt (counted_values cc))"
proof (cases "counted_values cc")
  case Nil
  have specs: "first_most_frequent rt (counted_values cc) = VNull"
    "first_least_frequent rt (counted_values cc) = VNull"
    by (simp_all add: first_most_frequent_def first_least_frequent_def Nil)
  have table: "count_frequencies rt msg cc = Inr []" for msg
    using assms by (simp add: count_frequencies_tally tally_groups Nil)
  show ?thesis
    unfolding specs
    by (simp add: executeMostFrequent_def executeLeastFrequent_def table)
next
  case (Cons x xs)
  let ?vals = "counted_values cc"
  let ?es = "groups rt ?vals"
  have nonempty: "cc \<noteq> []" "?es \<noteq> []"
    using Cons by (auto simp: counted_values_def groups_empty)
  have table: "count_frequencies rt msg cc = Inr ?es" for msg
    using assms by (simp add: count_frequencies_tally tally_groups)
  have "entry_with (top_count 0 ?es) ?es = Some (most_frequent_entry ?es)"
    using nonempty(2) groups_positive by (rule most_frequent_entry_first)
  then have "find (\<lambda>v. group_count rt ?vals v = top_count 0 ?es) ?vals
               = Some (most_frequent_entry ?es)"
    by (simp only: entry_with_groups)
  moreover have "find (\<lambda>v. list_all (\<lambda>w. group_count rt ?vals w \<le> group_count rt ?vals v) ?vals) ?vals
      = find (\<lambda>v. group_count rt ?vals v = top_count 0 ?es) ?vals"
    by (intro find_cong refl) (rule maximal_iff_top)
  ultimately have most: "first_most_frequent rt ?vals = most_frequent_entry ?es"
    by (simp add: first_most_frequent_def)
  let ?B = "bottom_count (Suc (group_count rt xs x))
              (groups rt (filter (\<lambda>u. to_string rt u \<noteq> to_string rt x) xs))"
  have "entry_with ?B (groups rt (x # xs)) = Some (least_frequent_entry (groups rt (x # xs)))"
    unfolding groups.simps by (rule least_frequent_entry_first)
  then have "find (\<lambda>v. group_count rt (x # xs) v = ?B) (x # xs)
               = Some (least_frequent_entry (groups rt (x # xs)))"
    by (simp only: entry_with_groups)
  moreover have "find (\<lambda>v. list_all (\<lambda>w. group_count rt (x # xs) v \<le> group_count rt (x # xs) w)
                          (x # xs)) (x # xs)
      = find (\<lambda>v. group_count rt (x # xs) v = ?B) (x # xs)"
    by (intro find_cong refl) (rule minimal_iff_bottom)
  ultimately have least: "first_least_frequent rt ?vals = least_frequent_entry ?es"
    by (simp only: first_least_frequent_def Cons option.case)
  show ?thesis
    using nonempty
    by (simp add: executeMostFrequent_def executeLeastFrequent_def table most least)
qed

text \<open>In \<^verbatim>\<open>[true, "true", "b", "b"]\<close> the value \<^verbatim>\<open>"b"\<close> occurs twice and \<^verbatim>\<open>true\<close> once,
  yet MOST_FREQUENT returns \<^verbatim>\<open>true\<close>.\<close>

lemmas frequency_eval = executeMostFrequent_def executeLeastFrequent_def count_frequencies_def
  frequency_value_def most_frequent_entry_def least_frequent_entry_def

theorem most_frequent_counterexample:
  "executeMostFrequent demo_runtime
     (working_on (demo_context [] []) [VBool True, VStr ''true'', VStr ''b'', VStr ''b''])
     = Inr (VBool True)
   \<and> count_list [VBool True, VStr ''true'', VStr ''b'', VStr ''b''] (VBool True) = 1
   \<and> count_list [VBool True, VStr ''true'', VStr ''b'', VStr ''b''] (VStr ''b'') = 2"
  by (simp add: frequency_eval)

theorem frequent_values_witness:
  "executeMostFrequent demo_runtime
     (working_on (demo_context [] [])
        [VNull, VObj [(''c'', VStr ''b'')], VBool True, VStr ''true'', VStr ''b'', VStr ''b''])
     = Inr (VStr ''b'')
   \<and> executeLeastFrequent demo_runtime
     (working_on (demo_context [] [])
        [VNull, VObj [(''c'', VStr ''b'')], VBool True, VStr ''true'', VStr ''b'', VStr ''b''])
     = Inr (VBool True)"
proof -
  have "list_all countable
          [VNull, VObj [(''c'', VStr ''b'')], VBool True, VStr ''true'', VStr ''b'', VStr ''b'']"
    by (simp add: countable_def)
  from frequent_values [OF this, of demo_runtime "demo_context [] []"]
  show ?thesis
    by (simp add: counted_values_def first_most_frequent_def first_least_frequent_def
          group_count_def)
qed

subsection \<open>Expected objects\<close>

text \<open>The parser's primitives.\<close>

lemma check_iff:
  "check ty ts \<longleftrightarrow> (\<exists>t rest. ts = t # rest \<and> tok_type t = ty \<and> ty \<noteq> T_EOF)"
  by (cases ts) (auto simp: check_def isAtEnd_def peek_def)

lemma isAtEnd_iff: "isAtEnd ts \<longleftrightarrow> (ts = [] \<or> tok_type (hd ts) = T_EOF)"
  by (cases ts) (auto simp: isAtEnd_def peek_def)

lemma advance_checked:
  assumes "check ty ts"
  obtains t rest where "ts = t # rest" and "tok_type t = ty" and "peek ts = t"
    and "advance ts = rest"
  using assms
  by (cases ts) (auto simp: check_def advance_def isAtEnd_def peek_def split: if_splits)

lemma consume_Inr:
  "consume ty msg ts = Inr (t, rest) \<Longrightarrow> check ty ts \<and> t = peek ts \<and> rest = advance ts"
  by (auto simp: consume_def split: if_splits)

lemma after_return_advance:
  "check ty ts \<Longrightarrow> ty \<noteq> T_RETURN \<Longrightarrow> after_return (advance ts) = after_return ts"
  by (cases ts) (auto simp: check_def advance_def isAtEnd_def peek_def after_return_def split: if_splits)

lemma after_return_skip:
  "\<not> check T_RETURN ts \<Longrightarrow> after_return (advance ts) = after_return ts"
  by (cases ts) (auto simp: check_def advance_def isAtEnd_def peek_def after_return_def split: if_splits)

lemma declared_paths_advance:
  "check ty ts \<Longrightarrow> ty \<noteq> T_USE \<Longrightarrow> ty \<noteq> T_QUERY \<Longrightarrow>
   declared_paths (advance ts) = declared_paths ts"
  by (cases ts) (auto simp: check_def advance_def isAtEnd_def peek_def split: if_splits)

lemma declared_paths_skip:
  "\<not> check T_USE ts \<Longrightarrow> \<not> check T_QUERY ts \<Longrightarrow>
   declared_paths (advance ts) = declared_paths ts"
  by (cases ts) (auto simp: check_def advance_def isAtEnd_def peek_def split: if_splits)

lemma consume_keeps:
  assumes "consume ty msg ts = Inr (t, rest)"
  shows "ty \<noteq> T_RETURN \<Longrightarrow> after_return rest = after_return ts"
    and "ty \<noteq> T_USE \<Longrightarrow> ty \<noteq> T_QUERY \<Longrightarrow> declared_paths rest = declared_paths ts"
  using consume_Inr [OF assms] after_return_advance declared_paths_advance by auto

text \<open>Field lists and USE paths.\<close>

lemma field_list_loop_keeps:
  "field_list_loop n ts = Inr (fs, rest) \<Longrightarrow>
   after_return rest = after_return ts \<and> declared_paths rest = declared_paths ts"
proof (induction n arbitrary: ts fs rest)
  case 0
  then show ?case by simp
next
  case (Suc n)
  from Suc.prems obtain t ts1 where
    c: "consume T_IDENTIFIER ''Expected field name'' ts = Inr (t, ts1)"
    by (auto simp: andThen_def split: sum.splits)
  note k = consume_keeps [OF c]
  show ?case
  proof (cases "check T_COMMA ts1")
    case True
    then obtain fs' where "field_list_loop n (advance ts1) = Inr (fs', rest)"
      using Suc.prems c by (auto simp: andThen_def split: sum.splits)
    from Suc.IH [OF this] show ?thesis
      using k True by (simp add: after_return_advance declared_paths_advance)
  next
    case False
    then show ?thesis using Suc.prems c k by auto
  qed
qed

lemma parseFieldList_keeps:
  "parseFieldList ts = Inr (fs, rest) \<Longrightarrow>
   after_return rest = after_return ts \<and> declared_paths rest = declared_paths ts"
  by (auto simp: parseFieldList_def dest: field_list_loop_keeps split: if_splits)

lemma more_segments_not_dot: "\<not> check T_DOT ts \<Longrightarrow> more_segments ts = []"
  by (cases ts rule: more_segments.cases) (auto simp: check_iff)

lemma use_path_loop_result:
  "use_path_loop n pathComponents ts = Inr (components, fs, rest) \<Longrightarrow>
   components = pathComponents @ more_segments ts
   \<and> declared_paths rest = declared_paths ts"
proof (induction n arbitrary: pathComponents ts)
  case 0
  then show ?case by simp
next
  case (Suc n)
  show ?case
  proof (cases "check T_DOT ts")
    case False
    then show ?thesis using Suc.prems by (simp add: more_segments_not_dot)
  next
    case True
    let ?ts1 = "advance ts"
    obtain d ts1 where ts: "ts = d # ts1" "tok_type d = T_DOT" "advance ts = ts1"
      using advance_checked [OF True] by metis
    have skip: "declared_paths ?ts1 = declared_paths ts"
      using True by (simp add: declared_paths_advance)
    show ?thesis
    proof (cases "check T_LEFT_BRACKET ?ts1")
      case bracket: True
      then obtain fs' ts2 t where
        f: "parseFieldList (advance ?ts1) = Inr (fs', ts2)"
        and c: "consume T_RIGHT_BRACKET ''Expected closing ']' after fields'' ts2 = Inr (t, rest)"
        and r: "components = pathComponents"
        using Suc.prems True by (auto simp: Let_def andThen_def split: sum.splits)
      have "more_segments ts = []"
        using bracket unfolding ts(3) by (auto simp: ts(1) check_iff)
      then show ?thesis
        using r skip parseFieldList_keeps [OF f] consume_keeps(2) [OF c] bracket
        by (simp add: declared_paths_advance)
    next
      case no_bracket: False
      show ?thesis
      proof (cases "check T_IDENTIFIER ?ts1")
        case ident: True
        then have rec: "use_path_loop n (pathComponents @ [tok_value (peek ?ts1)]) (advance ?ts1)
                    = Inr (components, fs, rest)"
          using Suc.prems True no_bracket by (simp add: Let_def)
        obtain i ts2 where ts1: "ts1 = i # ts2" "tok_type i = T_IDENTIFIER" "peek ts1 = i"
          "advance ts1 = ts2"
          using advance_checked [OF ident [unfolded ts(3)]] by metis
        have "more_segments ts = tok_value i # more_segments ts2"
          by (simp add: ts ts1)
        moreover have "declared_paths ts2 = declared_paths ts1"
          using declared_paths_advance [OF ident] by (simp add: ts(3) ts1(4))
        ultimately show ?thesis
          using Suc.IH [OF rec] skip
          by (simp add: ts(3) ts1(3,4))
      next
        case False
        then show ?thesis using Suc.prems True no_bracket by (simp add: Let_def)
      qed
    qed
  qed
qed

lemma parseUsePath_result:
  assumes "parseUsePath ts = Inr (usePath, rest)"
  shows "path usePath = join ''.'' (dotted_segments ts) \<and> declared_paths rest = declared_paths ts"
proof -
  have chk: "check T_IDENTIFIER ts"
    using assms by (auto simp: parseUsePath_def split: if_splits)
  then obtain components fs where
    l: "use_path_loop (length (advance ts)) [tok_value (peek ts)] (advance ts)
          = Inr (components, fs, rest)"
    and u: "usePath = \<lparr>path = join ''.'' components, use_fields = fs\<rparr>"
    using assms by (auto simp: parseUsePath_def consume_def andThen_def split: sum.splits)
  obtain i ts1 where ts: "ts = i # ts1" "tok_type i = T_IDENTIFIER" "peek ts = i"
    "advance ts = ts1"
    using advance_checked [OF chk] by metis
  have "dotted_segments ts = tok_value i # more_segments ts1"
    by (simp add: dotted_segments_def ts(1,2))
  moreover have "declared_paths ts1 = declared_paths ts"
    using declared_paths_advance [OF chk] by (simp add: ts(4))
  ultimately show ?thesis
    using use_path_loop_result [OF l]
    by (simp add: u ts(3,4))
qed



text \<open>Inside a query block no parser consumes a RETURN token.\<close>

lemma consume_keeps_return:
  "consume ty msg ts = Inr (t, rest) \<Longrightarrow> ty \<noteq> T_RETURN \<Longrightarrow> after_return rest = after_return ts"
  by (rule consume_keeps(1))

lemma parseValue_keeps:
  "parseValue ts = Inr (v, rest) \<Longrightarrow> after_return rest = after_return ts"
  by (auto simp: parseValue_def after_return_advance split: if_splits)

lemma parseComparisonOperator_keeps:
  "parseComparisonOperator ts = Inr (v, rest) \<Longrightarrow> after_return rest = after_return ts"
  by (auto simp: parseComparisonOperator_def after_return_advance split: if_splits)

lemma parseComparison_keeps:
  "parseComparison ts = Inr (c, rest) \<Longrightarrow> after_return rest = after_return ts"
  by (auto simp: parseComparison_def andThen_def split: sum.splits
      dest!: consume_keeps_return parseComparisonOperator_keeps parseValue_keeps)

lemma parse_rule_keeps:
  "parse_rule n rule ts = Inr (c, rest) \<Longrightarrow> after_return rest = after_return ts"
proof (induction n arbitrary: rule ts c rest)
  case 0
  then show ?case by simp
next
  case (Suc n)
  show ?case
  proof (cases rule)
    case LogicalOr
    then show ?thesis
      using Suc.prems by (auto simp: andThen_def split: sum.splits dest!: Suc.IH)
  next
    case (OrLoop e)
    then show ?thesis
      using Suc.prems
      by (auto simp: andThen_def after_return_advance split: sum.splits if_splits dest!: Suc.IH)
  next
    case LogicalAnd
    then show ?thesis
      using Suc.prems by (auto simp: andThen_def split: sum.splits dest!: Suc.IH)
  next
    case (AndLoop e)
    then show ?thesis
      using Suc.prems
      by (auto simp: andThen_def after_return_advance split: sum.splits if_splits dest!: Suc.IH)
  next
    case Unary
    then show ?thesis
      using Suc.prems
      by (auto simp: andThen_def after_return_advance split: sum.splits if_splits dest!: Suc.IH)
  next
    case Primary
    then show ?thesis
      using Suc.prems
      by (auto simp: andThen_def after_return_advance split: sum.splits if_splits
          dest!: Suc.IH consume_keeps_return parseComparison_keeps)
  qed
qed

lemma parseCondition_keeps:
  "parseCondition ts = Inr (c, rest) \<Longrightarrow> after_return rest = after_return ts"
  by (auto simp: parseCondition_def parseLogicalOr_def dest: parse_rule_keeps)

lemma parseWhere_keeps:
  "parseWhere ts = Inr (c, rest) \<Longrightarrow> after_return rest = after_return ts"
  by (auto simp: parseWhere_def andThen_def after_return_advance split: sum.splits if_splits
      dest!: consume_keeps_return parseCondition_keeps)

lemma parseSelectFields_keeps:
  "parseSelectFields ts = Inr (c, rest) \<Longrightarrow> after_return rest = after_return ts"
  by (auto simp: parseSelectFields_def andThen_def after_return_advance
      split: sum.splits if_splits
      dest!: consume_keeps_return parseFieldList_keeps)

lemma parseSelectOperation_keeps:
  "parseSelectOperation ts = Inr (c, rest) \<Longrightarrow> after_return rest = after_return ts"
  by (auto simp: parseSelectOperation_def Let_def andThen_def after_return_advance
      split: sum.splits if_splits
      dest!: parseSelectFields_keeps parseWhere_keeps)

lemma parseInnerSelect_keeps:
  "parseInnerSelect ts = Inr (c, rest) \<Longrightarrow> after_return rest = after_return ts"
  by (auto simp: parseInnerSelect_def andThen_def after_return_advance
      split: sum.splits if_splits
      dest!: parseSelectOperation_keeps parseWhere_keeps)

lemma parseCountOperation_keeps:
  "parseCountOperation ts = Inr (c, rest) \<Longrightarrow> after_return rest = after_return ts"
  by (auto simp: parseCountOperation_def andThen_def split: sum.splits
      dest!: parseInnerSelect_keeps)

lemma parsePercentOfOperation_keeps:
  "parsePercentOfOperation ts = Inr (c, rest) \<Longrightarrow> after_return rest = after_return ts"
  by (auto simp: parsePercentOfOperation_def Let_def andThen_def after_return_advance
      split: sum.splits if_splits
      dest!: parseInnerSelect_keeps)

lemma parseTwoVariables_keeps:
  "parseTwoVariables m1 m2 ts = Inr (c, rest) \<Longrightarrow> after_return rest = after_return ts"
  by (auto simp: parseTwoVariables_def andThen_def split: sum.splits
      dest!: consume_keeps_return)

lemma parseArithmetic_keeps:
  "parseDivideOperation ts = Inr (c, rest) \<Longrightarrow> after_return rest = after_return ts"
  "parseMultiplyOperation ts = Inr (c, rest) \<Longrightarrow> after_return rest = after_return ts"
  "parseSubtractOperation ts = Inr (c, rest) \<Longrightarrow> after_return rest = after_return ts"
  by (auto simp: parseDivideOperation_def parseMultiplyOperation_def parseSubtractOperation_def
      andThen_def split: sum.splits dest!: parseTwoVariables_keeps)

lemma parseSelectAsOperation_keeps:
  "parseSelectAsOperation ts = Inr (c, rest) \<Longrightarrow> after_return rest = after_return ts"
  by (auto simp: parseSelectAsOperation_def andThen_def split: sum.splits
      dest!: parseSelectOperation_keeps)

lemma parseVariableAssignment_keeps:
  assumes "parseVariableAssignment ts = Inr (c, rest)"
  shows "after_return rest = after_return ts"
proof -
  from assms obtain v ts1 where
    c: "consume T_VARIABLE ''Expected variable name'' ts = Inr (v, ts1)"
    by (auto simp: parseVariableAssignment_def andThen_def split: sum.splits)
  have "after_return rest = after_return ts1"
    using assms unfolding parseVariableAssignment_def c andThen_def
    by (auto simp: after_return_advance split: sum.splits if_splits
        dest!: parseCountOperation_keeps parseSelectAsOperation_keeps)
  then show ?thesis using consume_keeps_return [OF c] by simp
qed

lemma one_operation:
  "andThen r (\<lambda>(operation, ts1). Inr ([operation], ts1)) = Inr (c, rest) \<Longrightarrow>
   \<exists>operation. r = Inr (operation, rest)"
  by (auto simp: andThen_def split: sum.splits)

lemma parseOperation_keeps:
  assumes "parseOperation ts = Inr (c, rest)" and "\<not> check T_RETURN ts"
  shows "after_return rest = after_return ts"
  using assms unfolding parseOperation_def Let_def
  by (auto simp: after_return_advance after_return_skip split: if_splits
      dest!: one_operation parseVariableAssignment_keeps parseSelectAsOperation_keeps
        parseCountOperation_keeps parsePercentOfOperation_keeps parseArithmetic_keeps)

lemma operations_loop_keeps:
  "operations_loop n ts = Inr (ops, rest) \<Longrightarrow> after_return rest = after_return ts"
proof (induction n arbitrary: ts ops rest)
  case 0
  then show ?case by simp
next
  case (Suc n)
  show ?case
  proof (cases "\<not> check T_RETURN ts \<and> \<not> check T_QUERY ts \<and> \<not> isAtEnd ts")
    case True
    then obtain ops1 ts1 ops2 where
      p: "parseOperation ts = Inr (ops1, ts1)" and l: "operations_loop n ts1 = Inr (ops2, rest)"
      using Suc.prems by (auto simp: andThen_def split: sum.splits)
    show ?thesis
      using Suc.IH [OF l] parseOperation_keeps [OF p] True by simp
  next
    case False
    then show ?thesis using Suc.prems by auto
  qed
qed

lemma after_return_found:
  "check T_RETURN ts \<Longrightarrow> after_return ts = advance ts"
  by (cases ts) (auto simp: check_def advance_def isAtEnd_def peek_def after_return_def split: if_splits)

lemma parseQueryBlock_rest:
  assumes "parseQueryBlock ts = Inr (queryBlock, rest)"
  shows "rest = after_return ts"
proof -
  from assms obtain t ts1 ops ts2 r where
    c: "consume T_IDENTIFIER ''Expected query name after QUERY'' ts = Inr (t, ts1)"
    and l: "operations_loop (length ts1 + 1) ts1 = Inr (ops, ts2)"
    and e: "consume T_RETURN ''Expected RETURN at end of query block'' ts2 = Inr (r, rest)"
    by (auto simp: parseQueryBlock_def andThen_def split: sum.splits)
  have "after_return ts2 = rest"
    using consume_Inr [OF e] by (simp add: after_return_found)
  then show ?thesis
    using consume_keeps_return [OF c] operations_loop_keeps [OF l] by simp
qed

text \<open>The program loop.\<close>

lemma program_loop_paths:
  "program_loop n prog ts = Inr prog' \<Longrightarrow>
   expectedObjects prog' = expectedObjects prog @ declared_paths ts"
proof (induction n arbitrary: prog ts)
  case 0
  then show ?case by simp
next
  case (Suc n)
  consider (finished) "isAtEnd ts"
    | (comment) "\<not> isAtEnd ts" "check T_COMMENT ts"
    | (use) "\<not> isAtEnd ts" "\<not> check T_COMMENT ts" "check T_USE ts"
    | (query) "\<not> isAtEnd ts" "\<not> check T_COMMENT ts" "\<not> check T_USE ts" "check T_QUERY ts"
    | (other) "\<not> isAtEnd ts" "\<not> check T_COMMENT ts" "\<not> check T_USE ts" "\<not> check T_QUERY ts"
    by blast
  then show ?case
  proof cases
    case finished
    then have "declared_paths ts = []"
      by (cases ts) (auto simp: isAtEnd_def peek_def)
    then show ?thesis using Suc.prems finished by simp
  next
    case comment
    then have "program_loop n prog (advance ts) = Inr prog'"
      using Suc.prems by simp
    from Suc.IH [OF this] show ?thesis
      using comment by (simp add: declared_paths_advance)
  next
    case use
    then obtain usePath ts1 where
      p: "parseUsePath (advance ts) = Inr (usePath, ts1)"
      and l: "program_loop n (prog\<lparr>usePaths := usePaths prog @ [usePath]\<rparr>) ts1 = Inr prog'"
      using Suc.prems by (auto simp: andThen_def split: sum.splits)
    obtain u ts0 where ts: "ts = u # ts0" "tok_type u = T_USE" "advance ts = ts0"
      using advance_checked [OF use(3)] by metis
    have "declared_paths ts = join ''.'' (dotted_segments ts0) # declared_paths ts0"
      by (simp add: ts(1,2))
    then show ?thesis
      using Suc.IH [OF l] parseUsePath_result [OF p]
      by (simp add: expectedObjects_def ts(3))
  next
    case query
    then obtain queryBlock ts1 where
      p: "parseQueryBlock (advance ts) = Inr (queryBlock, ts1)"
      and l: "program_loop n (prog\<lparr>queryBlocks := queryBlocks prog @ [queryBlock]\<rparr>) ts1 = Inr prog'"
      using Suc.prems by (auto simp: andThen_def split: sum.splits)
    obtain u ts0 where ts: "ts = u # ts0" "tok_type u = T_QUERY" "advance ts = ts0"
      using advance_checked [OF query(4)] by metis
    have "declared_paths ts = declared_paths (after_return ts0)"
      by (simp add: ts(1,2))
    then show ?thesis
      using Suc.IH [OF l] parseQueryBlock_rest [OF p]
      by (simp add: expectedObjects_def ts(3))
  next
    case other
    then have "program_loop n prog (advance ts) = Inr prog'"
      using Suc.prems by simp
    from Suc.IH [OF this] show ?thesis
      using other by (simp add: declared_paths_skip)
  qed
qed


lemma parse_two_declarations:
  "parseQuery ''USE y.[w1,w2].plays USE data.users QUERY q SUM RETURN''
   = Inr \<lparr>usePaths = [\<lparr>path = ''y'', use_fields = Some [''w1'', ''w2'']\<rparr>,
                      \<lparr>path = ''data.users'', use_fields = None\<rparr>],
          queryBlocks = [\<lparr>name = ''q'', operations = [SumOperation]\<rparr>]\<rparr>"
  by code_simp

lemma paths_two_declarations:
  "declared_paths (tokenize ''USE y.[w1,w2].plays USE data.users QUERY q SUM RETURN'')
   = [''y'', ''data.users'']"
  by code_simp

text \<open>The bracketed list is not rendered: for \<^verbatim>\<open>USE y2024.w1.D.[plays,yards]\<close> the
  expected object is \<^verbatim>\<open>y2024.w1.D\<close>.\<close>

theorem expected_objects_counterexample:
  "query_expectedObjects ''USE y2024.w1.D.[plays,yards] QUERY q RETURN''
     = Inr [''y2024.w1.D'']
   \<and> query_expectedObjects ''USE y2024.w1.D.[plays,yards] QUERY q RETURN''
       \<noteq> Inr [''y2024.w1.D.[plays,yards]'']"
  by code_simp

text \<open>
  C4, as amended. For every query text that parses, \<^verbatim>\<open>expectedObjects\<close> returns one
  string per USE declaration outside the query blocks, in source order: the
  identifiers at the head of the declaration, joined by dots. A bracketed list ends
  the path; neither the list nor anything after it is rendered.
\<close>

theorem expectedObjects_declared:
  assumes "parseQuery queryText = Inr ast"
  shows "query_expectedObjects queryText = Inr (declared_paths (tokenize queryText))"
proof -
  have "expectedObjects ast = declared_paths (tokenize queryText)"
    using program_loop_paths [of "length (tokenize queryText) + 1"
        "\<lparr>usePaths = [], queryBlocks = []\<rparr>" "tokenize queryText" ast] assms
    by (simp add: parseQuery_def parse_def expectedObjects_def)
  then show ?thesis
    using assms by (simp add: query_expectedObjects_def)
qed

theorem expectedObjects_declared_witness:
  "query_expectedObjects ''USE y.[w1,w2].plays USE data.users QUERY q SUM RETURN''
     = Inr [''y'', ''data.users'']"
  using expectedObjects_declared [OF parse_two_declarations]
  by (simp add: paths_two_declarations)

end
